theory Spec2Isabelle
  imports Main "HOL-Library.Sublist" "HOL-Library.Char_ord" "HOL-Library.List_Lexorder"
begin

section \<open>JavaScript strings and the path helpers of Node\<close>

text \<open>
  A JavaScript string is modelled as a \<open>string\<close>: a list of code units below 256.
  Numbers that the code only uses as counters, line numbers and sizes are natural numbers.
\<close>

text \<open>\<open>String.prototype.includes\<close>: the argument occurs as a contiguous run.\<close>

fun str_includes :: "string \<Rightarrow> string \<Rightarrow> bool" where
  "str_includes [] sub = (sub = [])"
| "str_includes (c # cs) sub = (prefix sub (c # cs) \<or> str_includes cs sub)"

text \<open>\<open>startsWith\<close> and \<open>endsWith\<close>.\<close>

definition startsWith :: "string \<Rightarrow> string \<Rightarrow> bool" where
  "startsWith s p = prefix p s"

definition endsWith :: "string \<Rightarrow> string \<Rightarrow> bool" where
  "endsWith s p = suffix p s"

text \<open>
  \<open>toLowerCase\<close> on code units below 256: the letters A to Z and the upper-case
  letters of Latin-1 (0xC0 to 0xDE without the multiplication sign 0xD7) move up by 32.
\<close>

definition lower_char :: "char \<Rightarrow> char" where
  "lower_char c =
     (let n = (of_char c :: nat)
      in if (65 \<le> n \<and> n \<le> 90) \<or> (192 \<le> n \<and> n \<le> 222 \<and> n \<noteq> 215)
         then char_of (n + 32) else c)"

definition toLowerCase :: "string \<Rightarrow> string" where
  "toLowerCase s = map lower_char s"

text \<open>
  \<open>s.split(sep)\<close> for a one-character separator: never empty, \<open>''''.split\<close> is
  one empty piece, and a trailing separator gives a trailing empty piece.
\<close>

fun split_on :: "char \<Rightarrow> string \<Rightarrow> string list" where
  "split_on sep [] = [[]]"
| "split_on sep (c # cs) =
     (if c = sep then [] # split_on sep cs
      else (case split_on sep cs of
              [] \<Rightarrow> [[c]]
            | p # ps \<Rightarrow> (c # p) # ps))"

text \<open>\<open>xs.join(sep)\<close>.\<close>

fun join :: "string \<Rightarrow> string list \<Rightarrow> string" where
  "join sep [] = []"
| "join sep [x] = x"
| "join sep (x # y # ys) = x @ sep @ join sep (y # ys)"

text \<open>Decimal rendering of a non-negative integer, as a template literal prints it.\<close>

definition digit_char :: "nat \<Rightarrow> char" where
  "digit_char d = char_of (48 + d)"

fun show_nat :: "nat \<Rightarrow> string" where
  "show_nat n = (if n < 10 then [digit_char n] else show_nat (n div 10) @ [digit_char (n mod 10)])"

declare show_nat.simps [simp del]

text \<open>
  \<open>path.basename\<close> and \<open>path.extname\<close> of Node (POSIX flavour) on the relative,
  forward-slash paths the index stores (no trailing slash): the last component, and the
  part of the last component from its last dot on, empty when there is no dot or the only
  dot is the first character.
\<close>

definition basename :: "string \<Rightarrow> string" where
  "basename p = last (split_on CHR ''/'' p)"

definition extname :: "string \<Rightarrow> string" where
  "extname p =
     (let b = basename p; parts = split_on CHR ''.'' b
      in if length parts < 2 then []
         else if length parts = 2 \<and> hd parts = [] then []
         else CHR ''.'' # last parts)"


subsection \<open>Character classes and the pieces of the regular expressions\<close>

text \<open>
  \<open>\s\<close> of a JavaScript regular expression and the characters \<open>trim\<close> removes
  (below 256): tab, line feed, vertical tab, form feed, carriage return, space and the
  no-break space. \<open>\w\<close> is \<open>[A-Za-z0-9_]\<close>. A line terminator (what \<open>.\<close> refuses and
  what \<open>^\<close> follows under the \<open>m\<close> flag) is a line feed or a carriage return.
\<close>

definition is_space :: "char \<Rightarrow> bool" where
  "is_space c = (let n = (of_char c :: nat) in (9 \<le> n \<and> n \<le> 13) \<or> n = 32 \<or> n = 160)"

definition is_word :: "char \<Rightarrow> bool" where
  "is_word c =
     (let n = (of_char c :: nat)
      in (48 \<le> n \<and> n \<le> 57) \<or> (65 \<le> n \<and> n \<le> 90) \<or> n = 95 \<or> (97 \<le> n \<and> n \<le> 122))"

definition is_line_terminator :: "char \<Rightarrow> bool" where
  "is_line_terminator c = (c = CHR 0x0A \<or> c = CHR 0x0D)"

definition trimStart :: "string \<Rightarrow> string" where
  "trimStart s = dropWhile is_space s"

definition trim :: "string \<Rightarrow> string" where
  "trim s = rev (dropWhile is_space (rev (dropWhile is_space s)))"

text \<open>
  The expressions of this code base are matched by four pieces, each returning the rest of
  the input: a literal, \<open>\s*\<close>, \<open>\s+\<close> and the group \<open>(\w+)\<close>. The greedy
  pieces never need to give characters back: what follows \<open>\s*\<close> or \<open>\s+\<close> in
  every expression below starts with a character that is not white space, and what
  follows \<open>\w+\<close> is the end of the expression, white space or a parenthesis.
\<close>

definition lit :: "string \<Rightarrow> string \<Rightarrow> string option" where
  "lit l s = (if prefix l s then Some (drop (length l) s) else None)"

definition ws0 :: "string \<Rightarrow> string" where
  "ws0 s = dropWhile is_space s"

definition ws1 :: "string \<Rightarrow> string option" where
  "ws1 s = (case s of [] \<Rightarrow> None | c # cs \<Rightarrow> if is_space c then Some (dropWhile is_space cs) else None)"

definition word1 :: "string \<Rightarrow> (string \<times> string) option" where
  "word1 s = (let w = takeWhile is_word s in if w = [] then None else Some (w, dropWhile is_word s))"


section \<open>Test identifiers, tiers and entries (tests/ids.ts, tests/parsing.ts, test-map.ts)\<close>

datatype TestTier = Fast | Slow | Integration

text \<open>
  \<open>generateTestId(filePath, testName, line, unnamedCounter)\<close>. \<open>testName\<close> is
  \<open>string | null\<close>; the test \<open>if (testName)\<close> is JavaScript truthiness, so both
  \<open>null\<close> and the empty string take the unnamed branch.
\<close>

definition unnamedTestId :: "string \<Rightarrow> nat option \<Rightarrow> nat \<Rightarrow> string" where
  "unnamedTestId filePath line unnamedCounter =
     (case line of
        Some l \<Rightarrow> filePath @ ''::unnamed_test:L'' @ show_nat l
      | None \<Rightarrow> filePath @ ''::unnamed_test:'' @ show_nat unnamedCounter)"

definition generateTestId :: "string \<Rightarrow> string option \<Rightarrow> nat option \<Rightarrow> nat \<Rightarrow> string" where
  "generateTestId filePath testName line unnamedCounter =
     (case testName of
        None \<Rightarrow> unnamedTestId filePath line unnamedCounter
      | Some n \<Rightarrow>
          if n \<noteq> [] then filePath @ ''::'' @ n
          else unnamedTestId filePath line unnamedCounter)"

text \<open>
  \<open>determineTestTier(filePath, testName)\<close>: both arguments are lower-cased first
  (\<open>testName || ''''\<close> for the name); the path is tested for four keywords and the
  name for five.
\<close>

definition determineTestTier :: "string \<Rightarrow> string option \<Rightarrow> TestTier" where
  "determineTestTier filePath testName =
     (let lowerPath = toLowerCase filePath;
          lowerName = toLowerCase (case testName of None \<Rightarrow> [] | Some n \<Rightarrow> n)
      in if str_includes lowerPath ''integration'' \<or> str_includes lowerPath ''e2e'' \<or>
            str_includes lowerName ''integration'' \<or> str_includes lowerName ''e2e''
         then Integration
         else if str_includes lowerPath ''slow'' \<or> str_includes lowerPath ''benchmark'' \<or>
                 str_includes lowerName ''slow'' \<or> str_includes lowerName ''benchmark'' \<or>
                 str_includes lowerName ''perf''
         then Slow
         else Fast)"

text \<open>
  The tier as the specification words it: the keywords are looked for in the path and the
  name as given, and \<open>perf\<close> counts in both.
\<close>

definition spec_tier :: "string \<Rightarrow> string option \<Rightarrow> TestTier" where
  "spec_tier filePath testName =
     (let name = (case testName of None \<Rightarrow> [] | Some n \<Rightarrow> n)
      in if str_includes filePath ''integration'' \<or> str_includes filePath ''e2e'' \<or>
            str_includes name ''integration'' \<or> str_includes name ''e2e''
         then Integration
         else if str_includes filePath ''slow'' \<or> str_includes filePath ''benchmark'' \<or>
                 str_includes filePath ''perf'' \<or>
                 str_includes name ''slow'' \<or> str_includes name ''benchmark'' \<or>
                 str_includes name ''perf''
         then Slow
         else Fast)"

text \<open>
  \<open>extractTestTags\<close>: the tag patterns found in the lower-cased path or name, in the
  order of the pattern list.
\<close>

definition tagPatterns :: "string list" where
  "tagPatterns = [''unit'', ''integration'', ''e2e'', ''smoke'', ''regression'', ''api'', ''ui'',
                  ''component'']"

definition extractTestTags :: "string \<Rightarrow> string option \<Rightarrow> string list" where
  "extractTestTags filePath testName =
     (let lowerPath = toLowerCase filePath;
          lowerName = toLowerCase (case testName of None \<Rightarrow> [] | Some n \<Rightarrow> n)
      in filter (\<lambda>tag. str_includes lowerPath tag \<or> str_includes lowerName tag) tagPatterns)"

text \<open>
  \<open>extractTestPackage\<close>. The first loop runs over every component but the last, with
  the component before it at hand (\<open>parts[i - 1]\<close>, undefined for the first); it returns
  only below a \<open>node_modules\<close> component. The second loop returns the first component
  that is no test or source directory and has no dot.
\<close>

fun packageLoop :: "string option \<Rightarrow> string list \<Rightarrow> string option" where
  "packageLoop prev [] = None"
| "packageLoop prev [lastPart] = None"
| "packageLoop prev (part # nxt # rest) =
     (if part \<in> set [''__tests__'', ''tests'', ''test'', ''spec'', ''specs''] then
        packageLoop (Some part) (nxt # rest)
      else if part \<in> set [''src'', ''lib'', ''pkg'', ''internal'', ''cmd''] then
        packageLoop (Some part) (nxt # rest)
      else if prev = Some ''node_modules'' then
        (if startsWith part ''@'' then Some (part @ ''/'' @ nxt) else Some part)
      else packageLoop (Some part) (nxt # rest))"

definition extractTestPackage :: "string \<Rightarrow> string option" where
  "extractTestPackage filePath =
     (let parts = split_on CHR ''/'' filePath
      in case packageLoop None parts of
           Some p \<Rightarrow> Some p
         | None \<Rightarrow>
             find (\<lambda>part. part \<notin> set [''src'', ''__tests__'', ''tests'', ''test''] \<and>
                           \<not> str_includes part ''.'') parts)"

subsection \<open>Parsing test names (tests/parsing.ts)\<close>

record ParsedTest =
  pt_name :: "string option"
  pt_line :: nat

text \<open>
  A match result's capture group is \<open>undefined\<close> or a string; the parsers keep a match
  only when the group is truthy (\<open>match && match[k]\<close>).
\<close>

definition truthy_group :: "string option \<Rightarrow> bool" where
  "truthy_group g = (case g of None \<Rightarrow> False | Some s \<Rightarrow> s \<noteq> [])"

text \<open>
  The Jest expression \<open>(?:describe|it|test)\s*\(\s*(['"`])(.+?)\1\<close>, searched from
  every position of the line, leftmost first. After the opening quote the lazy group takes
  at least one character that is no line terminator and ends before the first later copy
  of the same quote.
\<close>

definition is_quote :: "char \<Rightarrow> bool" where
  "is_quote c = (c = CHR 0x27 \<or> c = CHR 0x22 \<or> c = CHR 0x60)"

fun lazy_until :: "char \<Rightarrow> string \<Rightarrow> string option" where
  "lazy_until q [] = None"
| "lazy_until q (c # cs) =
     (if c = q then Some []
      else if is_line_terminator c then None
      else map_option ((#) c) (lazy_until q cs))"

definition jest_keyword :: "string \<Rightarrow> string option" where
  "jest_keyword s =
     (case lit ''describe'' s of Some r \<Rightarrow> Some r
      | None \<Rightarrow> (case lit ''it'' s of Some r \<Rightarrow> Some r
                 | None \<Rightarrow> lit ''test'' s))"

definition jest_at :: "string \<Rightarrow> string option" where
  "jest_at s =
     (case jest_keyword s of
        None \<Rightarrow> None
      | Some r1 \<Rightarrow>
          (case lit ''('' (ws0 r1) of
             None \<Rightarrow> None
           | Some r2 \<Rightarrow>
               (case ws0 r2 of
                  [] \<Rightarrow> None
                | q # r3 \<Rightarrow>
                    if \<not> is_quote q then None
                    else (case r3 of
                            [] \<Rightarrow> None
                          | c # r4 \<Rightarrow>
                              if is_line_terminator c then None
                              else map_option ((#) c) (lazy_until q r4)))))"

fun jest_match :: "string \<Rightarrow> string option" where
  "jest_match [] = jest_at []"
| "jest_match (c # cs) = (case jest_at (c # cs) of Some n \<Rightarrow> Some n | None \<Rightarrow> jest_match cs)"

text \<open>The loops over the lines; \<open>i\<close> is the zero-based index of the first line left.\<close>

fun parseJestLines :: "nat \<Rightarrow> string list \<Rightarrow> ParsedTest list" where
  "parseJestLines i [] = []"
| "parseJestLines i (l # ls) =
     (let m = jest_match l
      in (if truthy_group m then [\<lparr>pt_name = m, pt_line = i + 1\<rparr>] else [])
         @ parseJestLines (i + 1) ls)"

definition parseJestTests :: "string \<Rightarrow> ParsedTest list" where
  "parseJestTests content = parseJestLines 0 (split_on CHR 0x0A content)"

text \<open>Pytest: \<open>^def\s+(test_\w+)\s*\(\<close> on the trimmed line.\<close>

definition prefixed_name_match :: "string \<Rightarrow> string \<Rightarrow> string \<Rightarrow> string option" where
  "prefixed_name_match kw pre s =
     (case lit kw s of
        None \<Rightarrow> None
      | Some r1 \<Rightarrow>
          (case ws1 r1 of
             None \<Rightarrow> None
           | Some r2 \<Rightarrow>
               (case lit pre r2 of
                  None \<Rightarrow> None
                | Some r3 \<Rightarrow>
                    (case word1 r3 of
                       None \<Rightarrow> None
                     | Some (w, r4) \<Rightarrow>
                         (case lit ''('' (ws0 r4) of
                            None \<Rightarrow> None
                          | Some r5 \<Rightarrow> Some (pre @ w))))))"

fun parsePrefixedLines :: "string \<Rightarrow> string \<Rightarrow> nat \<Rightarrow> string list \<Rightarrow> ParsedTest list" where
  "parsePrefixedLines kw pre i [] = []"
| "parsePrefixedLines kw pre i (l # ls) =
     (let m = prefixed_name_match kw pre (trim l)
      in (if truthy_group m then [\<lparr>pt_name = m, pt_line = i + 1\<rparr>] else [])
         @ parsePrefixedLines kw pre (i + 1) ls)"

definition parsePytestTests :: "string \<Rightarrow> ParsedTest list" where
  "parsePytestTests content = parsePrefixedLines ''def'' ''test_'' 0 (split_on CHR 0x0A content)"

text \<open>Go: \<open>^func\s+(Test\w+)\s*\(\<close> on the trimmed line.\<close>

definition parseGoTests :: "string \<Rightarrow> ParsedTest list" where
  "parseGoTests content = parsePrefixedLines ''func'' ''Test'' 0 (split_on CHR 0x0A content)"

text \<open>
  Rust: a line starting with \<open>#[test]\<close> arms the parser; the next line is matched against
  \<open>^(?:async\s+)?fn\s+(\w+)\s*\(\<close> and disarms it either way. The entry carries the
  line of the attribute.
\<close>

definition rust_fn_tail :: "string \<Rightarrow> string option" where
  "rust_fn_tail s =
     (case lit ''fn'' s of
        None \<Rightarrow> None
      | Some r1 \<Rightarrow>
          (case ws1 r1 of
             None \<Rightarrow> None
           | Some r2 \<Rightarrow>
               (case word1 r2 of
                  None \<Rightarrow> None
                | Some (w, r3) \<Rightarrow>
                    (case lit ''('' (ws0 r3) of None \<Rightarrow> None | Some r4 \<Rightarrow> Some w))))"

definition rust_fn_match :: "string \<Rightarrow> string option" where
  "rust_fn_match s =
     (case (case lit ''async'' s of None \<Rightarrow> None | Some r \<Rightarrow> ws1 r) of
        Some r \<Rightarrow> (case rust_fn_tail r of Some n \<Rightarrow> Some n | None \<Rightarrow> rust_fn_tail s)
      | None \<Rightarrow> rust_fn_tail s)"

fun parseRustLines :: "bool \<Rightarrow> nat \<Rightarrow> nat \<Rightarrow> string list \<Rightarrow> ParsedTest list" where
  "parseRustLines expectingFn testAttrLine i [] = []"
| "parseRustLines expectingFn testAttrLine i (l # ls) =
     (let line = trim l
      in if startsWith line ''#[test]'' then parseRustLines True (i + 1) (i + 1) ls
         else if expectingFn then
           (let m = rust_fn_match line
            in (if truthy_group m then [\<lparr>pt_name = m, pt_line = testAttrLine\<rparr>] else [])
               @ parseRustLines False testAttrLine (i + 1) ls)
         else parseRustLines expectingFn testAttrLine (i + 1) ls)"

definition parseRustTests :: "string \<Rightarrow> ParsedTest list" where
  "parseRustTests content = parseRustLines False 0 0 (split_on CHR 0x0A content)"

definition parseTestNames :: "string \<Rightarrow> string \<Rightarrow> ParsedTest list" where
  "parseTestNames content framework =
     (if framework = ''jest'' \<or> framework = ''mocha'' \<or> framework = ''vitest'' then parseJestTests content
      else if framework = ''pytest'' then parsePytestTests content
      else if framework = ''go'' then parseGoTests content
      else if framework = ''rust'' then parseRustTests content
      else [])"

text \<open>
  \<open>parseTestsFromFile\<close> reads the file; \<open>readFile\<close> is the file system, \<open>None\<close>
  where \<open>readFileSync\<close> throws (the \<open>catch\<close> returns no tests).
\<close>

definition parseTestsFromFile :: "(string \<Rightarrow> string option) \<Rightarrow> string \<Rightarrow> string \<Rightarrow> string \<Rightarrow> ParsedTest list" where
  "parseTestsFromFile readFile filePath absolutePath framework =
     (case readFile absolutePath of
        None \<Rightarrow> []
      | Some content \<Rightarrow> parseTestNames content framework)"

text \<open>\<open>detectTestFramework\<close> (tests/detection.ts).\<close>

definition detectTestFramework :: "string \<Rightarrow> string" where
  "detectTestFramework filePath =
     (let ext = toLowerCase (extname filePath); base = basename filePath
      in if endsWith base ''_test.go'' then ''go''
         else if ext = ''.rs'' then ''rust''
         else if ext = ''.py'' then ''pytest''
         else if ext \<in> set [''.ts'', ''.tsx'', ''.js'', ''.jsx'', ''.mjs''] then ''jest''
         else ''unknown'')"

subsection \<open>Building the entries (test-map.ts)\<close>

record DiscoveredFile =
  path :: string
  absolutePath :: string
  fsize :: nat
  mtime :: string

record TestEntry =
  test_id :: string
  te_file :: string
  te_name :: "string option"
  te_tags :: "string list"
  te_tier :: TestTier
  files_touched :: "string list"
  packages :: "string list"

definition packagesOf :: "string option \<Rightarrow> string list" where
  "packagesOf pkg = (case pkg of None \<Rightarrow> [] | Some p \<Rightarrow> if p \<noteq> [] then [p] else [])"

text \<open>
  The inner loop of \<open>buildTestEntries\<close>: \<open>unnamedCounter\<close> is bumped before the
  identifier of a test without a truthy name is generated.
\<close>

fun entriesOfParsed :: "string \<Rightarrow> string option \<Rightarrow> nat \<Rightarrow> ParsedTest list \<Rightarrow> TestEntry list" where
  "entriesOfParsed p pkg unnamedCounter [] = []"
| "entriesOfParsed p pkg unnamedCounter (t # ts) =
     (let counter = (if truthy_group (pt_name t) then unnamedCounter else unnamedCounter + 1)
      in \<lparr>test_id = generateTestId p (pt_name t) (Some (pt_line t)) counter,
           te_file = p,
           te_name = pt_name t,
           te_tags = extractTestTags p (pt_name t),
           te_tier = determineTestTier p (pt_name t),
           files_touched = [],
           packages = packagesOf pkg\<rparr>
         # entriesOfParsed p pkg counter ts)"

definition entriesOfFile :: "(string \<Rightarrow> string option) \<Rightarrow> DiscoveredFile \<Rightarrow> TestEntry list" where
  "entriesOfFile readFile file =
     (let framework = detectTestFramework (path file);
          parsedTests = parseTestsFromFile readFile (path file) (absolutePath file) framework;
          pkg = extractTestPackage (path file)
      in if parsedTests = [] then
           [\<lparr>test_id = generateTestId (path file) None None 1,
             te_file = path file,
             te_name = None,
             te_tags = extractTestTags (path file) None,
             te_tier = determineTestTier (path file) None,
             files_touched = [],
             packages = packagesOf pkg\<rparr>]
         else entriesOfParsed (path file) pkg 0 parsedTests)"

definition buildTestEntries :: "(string \<Rightarrow> string option) \<Rightarrow> DiscoveredFile list \<Rightarrow> TestEntry list" where
  "buildTestEntries readFile testFiles = concat (map (entriesOfFile readFile) testFiles)"

section \<open>Symbols (types.ts)\<close>

datatype SymbolKind =
  KFunction | KClass | KMethod | KInterface | KType | KEnum | KConstant | KModule | KVariable

datatype SymbolVisibility = Export | Public | Private | Internal

record Position =
  line :: nat
  col :: int

record Span =
  span_start :: Position
  span_end :: Position

text \<open>An optional field (\<open>signature?\<close>) is an option; \<open>undefined\<close> is \<open>None\<close>.\<close>

record AdapterSymbol =
  as_name :: string
  as_kind :: SymbolKind
  as_span :: Span
  as_signature :: "string option"
  as_docstring :: "string option"
  as_visibility :: "SymbolVisibility option"

record Symbol =
  symbol_id :: string
  sym_name :: string
  sym_kind :: SymbolKind
  sym_file :: string
  sym_span :: "Span option"
  signature :: "string option"
  docstring_summary :: "string option"
  visibility :: SymbolVisibility
  top_callers :: "string list"
  top_callees :: "string list"
  tags :: "string list"


section \<open>The TypeScript/JavaScript extractor (extractors/typescript.ts)\<close>

text \<open>
  \<open>indexOf\<close> (\<open>-1\<close> when absent) and \<open>substring(a, b)\<close>, which clamps its arguments
  to the string and swaps them when \<open>a > b\<close>.
\<close>

fun index_of :: "string \<Rightarrow> string \<Rightarrow> nat option" where
  "index_of [] sub = (if sub = [] then Some 0 else None)"
| "index_of (c # cs) sub = (if prefix sub (c # cs) then Some 0 else map_option Suc (index_of cs sub))"

definition indexOf :: "string \<Rightarrow> string \<Rightarrow> int" where
  "indexOf s sub = (case index_of s sub of None \<Rightarrow> - 1 | Some i \<Rightarrow> int i)"

definition substring :: "string \<Rightarrow> nat \<Rightarrow> nat \<Rightarrow> string" where
  "substring s a b = (let lo = min a b; hi = max a b in take (hi - lo) (drop lo s))"

definition truncate200 :: "string \<Rightarrow> string" where
  "truncate200 s = (if length s > 200 then substring s 0 197 @ ''...'' else s)"

text \<open>
  The nine patterns are sequences of these pieces; \<open>OptLitWs l\<close> is the optional group
  \<open>(l\s+)?\<close> (tried with the group first, then without it) and \<open>AltLit\<close> an
  alternative of literals (tried in order). The match returns the text of the \<open>(\w+)\<close>
  groups, the name group of every pattern being the only one.
\<close>

datatype tok = Lit string | Ws1 | OptLitWs string | AltLit "string list" | Word

fun first_some :: "('a \<Rightarrow> 'b option) \<Rightarrow> 'a list \<Rightarrow> 'b option" where
  "first_some f [] = None"
| "first_some f (x # xs) = (case f x of Some y \<Rightarrow> Some y | None \<Rightarrow> first_some f xs)"

fun match_toks :: "tok list \<Rightarrow> string \<Rightarrow> string list option" where
  "match_toks [] s = Some []"
| "match_toks (Lit l # ts) s = (case lit l s of None \<Rightarrow> None | Some r \<Rightarrow> match_toks ts r)"
| "match_toks (Ws1 # ts) s = (case ws1 s of None \<Rightarrow> None | Some r \<Rightarrow> match_toks ts r)"
| "match_toks (OptLitWs l # ts) s =
     (case (case lit l s of None \<Rightarrow> None | Some r \<Rightarrow> ws1 r) of
        Some r \<Rightarrow> (case match_toks ts r of Some caps \<Rightarrow> Some caps | None \<Rightarrow> match_toks ts s)
      | None \<Rightarrow> match_toks ts s)"
| "match_toks (AltLit ls # ts) s =
     first_some (\<lambda>l. case lit l s of None \<Rightarrow> None | Some r \<Rightarrow> match_toks ts r) ls"
| "match_toks (Word # ts) s =
     (case word1 s of
        None \<Rightarrow> None
      | Some (w, r) \<Rightarrow> map_option ((#) w) (match_toks ts r))"

text \<open>
  Every pattern starts with \<open>^\<close> and carries the \<open>m\<close> flag: it is tried at the start
  of the line and after every line terminator inside it, leftmost first.
\<close>

fun match_m :: "tok list \<Rightarrow> bool \<Rightarrow> string \<Rightarrow> string list option" where
  "match_m p atStart [] = (if atStart then match_toks p [] else None)"
| "match_m p atStart (c # cs) =
     (case (if atStart then match_toks p (c # cs) else None) of
        Some caps \<Rightarrow> Some caps
      | None \<Rightarrow> match_m p (is_line_terminator c) cs)"

definition ts_patterns :: "(tok list \<times> SymbolKind) list" where
  "ts_patterns =
     [([Lit ''export'', Ws1, OptLitWs ''async'', Lit ''function'', Ws1, Word], KFunction),
      ([Lit ''export'', Ws1, Lit ''function'', Ws1, Word], KFunction),
      ([Lit ''export'', Ws1, Lit ''default'', Ws1, OptLitWs ''async'', Lit ''function'', Ws1, Word],
       KFunction),
      ([Lit ''export'', Ws1, Lit ''default'', Ws1, Lit ''function'', Ws1, Word], KFunction),
      ([Lit ''export'', Ws1, OptLitWs ''default'', Lit ''class'', Ws1, Word], KClass),
      ([Lit ''export'', Ws1, AltLit [''const'', ''let'', ''var''], Ws1, Word], KVariable),
      ([Lit ''export'', Ws1, Lit ''interface'', Ws1, Word], KInterface),
      ([Lit ''export'', Ws1, Lit ''type'', Ws1, Word], KType),
      ([Lit ''export'', Ws1, Lit ''enum'', Ws1, Word], KEnum)]"

text \<open>
  \<open>findSymbolEnd\<close>: brace counting from the start line, over at most 50 lines for a
  variable or type and at most 500 lines otherwise.
\<close>

definition count_char :: "char \<Rightarrow> string \<Rightarrow> nat" where
  "count_char c s = length (filter (\<lambda>x. x = c) s)"

definition brace_delta :: "string \<Rightarrow> int" where
  "brace_delta l = int (count_char CHR ''{'' l) - int (count_char CHR ''}'' l)"

fun endLoopStatement :: "int \<Rightarrow> nat \<Rightarrow> nat \<Rightarrow> string list \<Rightarrow> nat" where
  "endLoopStatement braceCount endLine i [] = endLine"
| "endLoopStatement braceCount endLine i (l # ls) =
     (let bc = braceCount + brace_delta l
      in if bc = 0 \<and> (str_includes l '';'' \<or> endsWith (trim l) ''}'') then i
         else endLoopStatement bc i (i + 1) ls)"

fun endLoopBlock :: "int \<Rightarrow> bool \<Rightarrow> nat \<Rightarrow> string list \<Rightarrow> nat option" where
  "endLoopBlock braceCount foundOpening i [] = None"
| "endLoopBlock braceCount foundOpening i (l # ls) =
     (let bc = braceCount + brace_delta l;
          fo = (foundOpening \<or> bc > 0)
      in if fo \<and> bc = 0 then Some i else endLoopBlock bc fo (i + 1) ls)"

definition findSymbolEnd :: "string list \<Rightarrow> nat \<Rightarrow> SymbolKind \<Rightarrow> nat" where
  "findSymbolEnd lines startLine kind =
     (if kind = KVariable \<or> kind = KType then
        endLoopStatement 0 startLine startLine (take 50 (drop startLine lines))
      else (case endLoopBlock 0 False startLine (take 500 (drop startLine lines)) of
              Some i \<Rightarrow> i
            | None \<Rightarrow> startLine))"

text \<open>\<open>extractSignature\<close>.\<close>

definition strip_export :: "string \<Rightarrow> string" where
  "strip_export s =
     (case (case lit ''export'' s of None \<Rightarrow> None | Some r \<Rightarrow> ws1 r) of
        None \<Rightarrow> s
      | Some r \<Rightarrow>
          (case (case lit ''default'' r of None \<Rightarrow> None | Some r' \<Rightarrow> ws1 r') of
             None \<Rightarrow> r
           | Some r'' \<Rightarrow> r''))"

definition cut_at_brace :: "string \<Rightarrow> string" where
  "cut_at_brace s =
     (let braceIndex = indexOf s ''{''
      in if braceIndex > 0 then trim (substring s 0 (nat braceIndex)) else s)"

definition extractSignature :: "string \<Rightarrow> SymbolKind \<Rightarrow> string" where
  "extractSignature l kind =
     (let sig1 = strip_export (trim l);
          sig2 = (if kind = KFunction then cut_at_brace sig1 else sig1);
          sig3 = (if kind = KClass \<or> kind = KInterface then cut_at_brace sig2 else sig2)
      in truncate200 sig3)"

text \<open>
  \<open>extractDocstring\<close>: the loop walks up from the line before the symbol over at most 30
  lines, with the lines collected inside a block comment and the flag \<open>inBlock\<close>.
\<close>

definition strip_star :: "string \<Rightarrow> string" where
  "strip_star s = (case lit ''*'' s of None \<Rightarrow> s | Some r \<Rightarrow> ws0 r)"

definition first_doc_line :: "string list \<Rightarrow> string option" where
  "first_doc_line docLines =
     map_option truncate200
       (find (\<lambda>cleaned. cleaned \<noteq> [] \<and> \<not> startsWith cleaned ''@'')
          (map (\<lambda>docLine. trim (strip_star docLine)) docLines))"

fun docLoop :: "string list \<Rightarrow> bool \<Rightarrow> string list \<Rightarrow> string option" where
  "docLoop docLines inBlock [] = None"
| "docLoop docLines inBlock (raw # upper) =
     (let l = trim raw
      in if endsWith l ''*/'' then
           (let contentStart = indexOf l ''/**'';
                content = (if contentStart \<ge> 0
                           then trim (substring l (nat contentStart + 3) (length l - 2)) else [])
            in if contentStart \<ge> 0 \<and> content \<noteq> [] then Some (truncate200 content)
               else docLoop docLines True upper)
         else if startsWith l ''/**'' then
           (if inBlock then first_doc_line (rev docLines) else None)
         else
           (let docLines' = (if inBlock then docLines @ [l] else docLines)
            in if startsWith l ''//'' then
                 (if \<not> inBlock \<and> docLines' = [] then
                    Some (truncate200 (trim (drop 2 l)))
                  else None)
               else if length l > 0 \<and> \<not> inBlock then None
               else docLoop docLines' inBlock upper))"

definition extractDocstring :: "string list \<Rightarrow> nat \<Rightarrow> string option" where
  "extractDocstring lines symbolLine = docLoop [] False (take 30 (rev (take symbolLine lines)))"

text \<open>
  The main loop: per line the first pattern that matches with a non-empty name gives one
  symbol (the \<open>break\<close>), and the other patterns are not tried on that line.
\<close>

fun first_pattern :: "(tok list \<times> SymbolKind) list \<Rightarrow> string \<Rightarrow> (string \<times> SymbolKind) option" where
  "first_pattern [] l = None"
| "first_pattern ((p, kind) # ps) l =
     (case match_m p True l of
        Some (name # caps) \<Rightarrow> if name \<noteq> [] then Some (name, kind) else first_pattern ps l
      | Some [] \<Rightarrow> first_pattern ps l
      | None \<Rightarrow> first_pattern ps l)"

definition symbolAt :: "string list \<Rightarrow> nat \<Rightarrow> string \<Rightarrow> AdapterSymbol list" where
  "symbolAt lines lineIndex l =
     (case first_pattern ts_patterns l of
        None \<Rightarrow> []
      | Some (name, kind) \<Rightarrow>
          [\<lparr>as_name = name,
            as_kind = kind,
            as_span = \<lparr>span_start = \<lparr>line = lineIndex + 1, col = indexOf l name\<rparr>,
                       span_end = \<lparr>line = findSymbolEnd lines lineIndex kind + 1, col = 0\<rparr>\<rparr>,
            as_signature = Some (extractSignature l kind),
            as_docstring = extractDocstring lines lineIndex,
            as_visibility = Some Export\<rparr>])"

fun tsLoop :: "string list \<Rightarrow> nat \<Rightarrow> string list \<Rightarrow> AdapterSymbol list" where
  "tsLoop lines lineIndex [] = []"
| "tsLoop lines lineIndex (l # ls) = symbolAt lines lineIndex l @ tsLoop lines (lineIndex + 1) ls"

definition extractTypescriptSymbols :: "string \<Rightarrow> string \<Rightarrow> AdapterSymbol list" where
  "extractTypescriptSymbols content filePath =
     (let lines = split_on CHR 0x0A content in tsLoop lines 0 lines)"

section \<open>Symbol identifiers and extraction from a file (symbols.ts)\<close>

text \<open>
  \<open>generateSymbolId(filePath, name, line, existingIds, container?)\<close> mutates the set
  \<open>existingIds\<close>; the model returns the identifier and the new set. \<open>if (container)\<close>
  is truthiness. The two branches without a container build the same string, as in the
  source.
\<close>

definition generateSymbolId ::
  "string \<Rightarrow> string \<Rightarrow> nat \<Rightarrow> string set \<Rightarrow> string option \<Rightarrow> string \<times> string set" where
  "generateSymbolId filePath name ln existingIds container =
     (let baseId =
            (if (case container of None \<Rightarrow> False | Some c \<Rightarrow> c \<noteq> [])
             then filePath @ ''::'' @ (case container of None \<Rightarrow> [] | Some c \<Rightarrow> c) @ ''.'' @ name
             else if str_includes name ''.'' then filePath @ ''::'' @ name
             else filePath @ ''::'' @ name)
      in if baseId \<notin> existingIds then (baseId, insert baseId existingIds)
         else (let fallbackId = baseId @ '':L'' @ show_nat ln
               in (fallbackId, insert fallbackId existingIds)))"

definition truthy_string :: "string option \<Rightarrow> string option" where
  "truthy_string v = (case v of None \<Rightarrow> None | Some s \<Rightarrow> if s \<noteq> [] then Some s else None)"

definition adapterSymbolToSymbol ::
  "AdapterSymbol \<Rightarrow> string \<Rightarrow> string set \<Rightarrow> Symbol \<times> string set" where
  "adapterSymbolToSymbol adapterSymbol filePath existingIds =
     (let (symbolId, ids) =
            generateSymbolId filePath (as_name adapterSymbol)
              (line (span_start (as_span adapterSymbol))) existingIds None
      in (\<lparr>symbol_id = symbolId,
           sym_name = as_name adapterSymbol,
           sym_kind = as_kind adapterSymbol,
           sym_file = filePath,
           sym_span = Some (as_span adapterSymbol),
           signature = truthy_string (as_signature adapterSymbol),
           docstring_summary = truthy_string (as_docstring adapterSymbol),
           visibility = (case as_visibility adapterSymbol of None \<Rightarrow> Export | Some v \<Rightarrow> v),
           top_callers = [],
           top_callees = [],
           tags = []\<rparr>, ids))"

text \<open>\<open>adapterSymbols.map((s) => adapterSymbolToSymbol(s, filePath, existingIds))\<close>.\<close>

fun toSymbols :: "string \<Rightarrow> string set \<Rightarrow> AdapterSymbol list \<Rightarrow> Symbol list \<times> string set" where
  "toSymbols filePath existingIds [] = ([], existingIds)"
| "toSymbols filePath existingIds (a # rest) =
     (let (s, ids1) = adapterSymbolToSymbol a filePath existingIds;
          (ss, ids2) = toSymbols filePath ids1 rest
      in (s # ss, ids2))"

text \<open>\<open>detectLanguage\<close> (filter.ts).\<close>

definition detectLanguage :: "string \<Rightarrow> string" where
  "detectLanguage filePath =
     (let ext = toLowerCase (extname filePath)
      in if ext = ''.ts'' \<or> ext = ''.tsx'' then ''typescript''
         else if ext = ''.js'' \<or> ext = ''.jsx'' \<or> ext = ''.mjs'' \<or> ext = ''.cjs'' then ''javascript''
         else if ext = ''.py'' \<or> ext = ''.pyi'' then ''python''
         else if ext = ''.rs'' then ''rust''
         else if ext = ''.go'' then ''go''
         else if ext = ''.java'' then ''java''
         else if ext = ''.kt'' \<or> ext = ''.kts'' then ''kotlin''
         else if ext = ''.c'' \<or> ext = ''.h'' then ''c''
         else if ext = ''.cpp'' \<or> ext = ''.hpp'' \<or> ext = ''.cc'' \<or> ext = ''.hh'' then ''cpp''
         else if ext = ''.rb'' then ''ruby''
         else ''unknown'')"

text \<open>
  The extractors for Python, Rust and Go are parameters of the model: no property below
  depends on what they return.
\<close>

record BaselineExtractors =
  extractPythonSymbols :: "string \<Rightarrow> string \<Rightarrow> AdapterSymbol list"
  extractRustSymbols :: "string \<Rightarrow> string \<Rightarrow> AdapterSymbol list"
  extractGoSymbols :: "string \<Rightarrow> string \<Rightarrow> AdapterSymbol list"

definition extractSymbolsBaseline ::
  "BaselineExtractors \<Rightarrow> string \<Rightarrow> string \<Rightarrow> AdapterSymbol list" where
  "extractSymbolsBaseline bx content filePath =
     (let language = detectLanguage filePath
      in if language = ''typescript'' \<or> language = ''javascript'' then
           extractTypescriptSymbols content filePath
         else if language = ''python'' then extractPythonSymbols bx content filePath
         else if language = ''rust'' then extractRustSymbols bx content filePath
         else if language = ''go'' then extractGoSymbols bx content filePath
         else [])"

text \<open>
  An adapter: its name, \<open>isAvailable()\<close> and \<open>extractSymbols(path, content)\<close>; \<open>None\<close>
  stands for a call that throws (the loop over the adapters catches it and goes on).
\<close>

record IndexAdapter =
  adapter_name :: string
  isAvailable :: "bool option"
  extractSymbols :: "string \<Rightarrow> string \<Rightarrow> AdapterSymbol list option"

record ExtractResult =
  er_symbols :: "Symbol list"
  er_adapterUsed :: "string option"
  er_error :: "string option"

text \<open>
  The file system as the builder reads it: \<open>fs_stat\<close> gives the ISO string of the
  modification time and the size, \<open>fs_readFile\<close> the content or the message of the error
  \<open>readFileSync\<close> throws, and \<open>fs_sha256hex\<close> is the digest.
\<close>

record FileSystem =
  fs_stat :: "string \<Rightarrow> (string \<times> nat) option"
  fs_readFile :: "string \<Rightarrow> string + string"
  fs_sha256hex :: "string \<Rightarrow> string"

fun tryAdapters ::
  "IndexAdapter list \<Rightarrow> string \<Rightarrow> string \<Rightarrow> string \<Rightarrow> string set \<Rightarrow>
   (ExtractResult \<times> string set) option" where
  "tryAdapters [] filePath absPath content existingIds = None"
| "tryAdapters (adapter # rest) filePath absPath content existingIds =
     (if isAvailable adapter = Some True then
        (case extractSymbols adapter absPath content of
           None \<Rightarrow> tryAdapters rest filePath absPath content existingIds
         | Some adapterSymbols \<Rightarrow>
             if length adapterSymbols > 0 then
               (let (syms, ids) = toSymbols filePath existingIds adapterSymbols
                in Some (\<lparr>er_symbols = syms, er_adapterUsed = Some (adapter_name adapter),
                           er_error = None\<rparr>, ids))
             else tryAdapters rest filePath absPath content existingIds)
      else tryAdapters rest filePath absPath content existingIds)"

definition extractSymbolsFromFile ::
  "FileSystem \<Rightarrow> BaselineExtractors \<Rightarrow> string \<Rightarrow> string \<Rightarrow> IndexAdapter list \<Rightarrow> string set \<Rightarrow>
   ExtractResult \<times> string set" where
  "extractSymbolsFromFile fs bx filePath absPath adapters existingIds =
     (case fs_readFile fs absPath of
        Inl message \<Rightarrow>
          (\<lparr>er_symbols = [], er_adapterUsed = None,
            er_error = Some (''Failed to read file: '' @ message)\<rparr>, existingIds)
      | Inr content \<Rightarrow>
          (case tryAdapters adapters filePath absPath content existingIds of
             Some r \<Rightarrow> r
           | None \<Rightarrow>
               (let (syms, ids) =
                      toSymbols filePath existingIds (extractSymbolsBaseline bx content filePath)
                in (\<lparr>er_symbols = syms, er_adapterUsed = None, er_error = None\<rparr>, ids))))"

section \<open>Hashing and change analysis (hashing.ts, incremental.ts)\<close>

datatype FileChangeStatus = New | Changed | Unchanged | Deleted

record FileChange =
  fc_path :: string
  fc_status :: FileChangeStatus
  fc_hash :: "string option"

record FileHashEntry =
  fhe_hash :: string
  fhe_mtime :: string
  fhe_size :: nat

text \<open>
  The ledger \<open>files: Record<string, FileHashEntry>\<close> is a list of pairs with distinct
  keys in insertion order; \<open>files[p]\<close> is \<open>map_of\<close>, and every entry is an object and
  so truthy.
\<close>

record FileHashes =
  fh_schema_version :: string
  fh_git_commit :: "string option"
  fh_files :: "(string \<times> FileHashEntry) list"

text \<open>
  What a function can throw: \<open>readFileSync\<close> failing inside \<open>computeFileHash\<close>,
  and a write or rename failing inside the writer.
\<close>

datatype exn = ReadError string | IOError string | TypeError string

text \<open>\<open>computeFileHash\<close>: \<open>None\<close> when the file cannot be read (the call throws).\<close>

definition computeFileHash :: "FileSystem \<Rightarrow> string \<Rightarrow> string option" where
  "computeFileHash fs filePath =
     (case fs_readFile fs filePath of
        Inl message \<Rightarrow> None
      | Inr content \<Rightarrow> Some (''sha256:'' @ fs_sha256hex fs content))"

datatype QuickResult = QUnchanged | QMaybeChanged | QError

definition quickChangeCheck :: "FileSystem \<Rightarrow> string \<Rightarrow> string \<Rightarrow> nat \<Rightarrow> QuickResult" where
  "quickChangeCheck fs filePath previousMtime previousSize =
     (case fs_stat fs filePath of
        None \<Rightarrow> QError
      | Some (currentMtime, currentSize) \<Rightarrow>
          if currentMtime = previousMtime \<and> currentSize = previousSize then QUnchanged
          else QMaybeChanged)"

text \<open>
  One round of the first loop of \<open>analyzeChanges\<close>: the verdict for a discovered file,
  together with the calls of \<open>computeFileHash\<close> made for it (the paths, in order).
  Without a ledger, or without an entry for the path, the file is \<open>new\<close>. The
  ledger is read by its own keys: a path that names a member of \<open>Object.prototype\<close>
  (such as \<open>constructor\<close>) and has no entry of its own is not covered.
\<close>

definition analyzeFile ::
  "FileSystem \<Rightarrow> FileHashes option \<Rightarrow> DiscoveredFile \<Rightarrow> exn + (FileChange \<times> string list)" where
  "analyzeFile fs previousHashes file =
     (case (case previousHashes of None \<Rightarrow> None | Some ph \<Rightarrow> map_of (fh_files ph) (path file)) of
        None \<Rightarrow>
          (case computeFileHash fs (absolutePath file) of
             None \<Rightarrow> Inl (ReadError (absolutePath file))
           | Some h \<Rightarrow>
               Inr (\<lparr>fc_path = path file, fc_status = New, fc_hash = Some h\<rparr>,
                    [absolutePath file]))
      | Some previous \<Rightarrow>
          (case quickChangeCheck fs (absolutePath file) (fhe_mtime previous) (fhe_size previous) of
             QUnchanged \<Rightarrow>
               Inr (\<lparr>fc_path = path file, fc_status = Unchanged,
                      fc_hash = Some (fhe_hash previous)\<rparr>, [])
           | QError \<Rightarrow>
               Inr (\<lparr>fc_path = path file, fc_status = Changed, fc_hash = None\<rparr>, [])
           | QMaybeChanged \<Rightarrow>
               (case computeFileHash fs (absolutePath file) of
                  None \<Rightarrow> Inl (ReadError (absolutePath file))
                | Some currentHash \<Rightarrow>
                    Inr (\<lparr>fc_path = path file,
                           fc_status = (if currentHash = fhe_hash previous then Unchanged
                                        else Changed),
                           fc_hash = Some currentHash\<rparr>, [absolutePath file]))))"

fun analyzeFiles ::
  "FileSystem \<Rightarrow> FileHashes option \<Rightarrow> DiscoveredFile list \<Rightarrow> exn + (FileChange \<times> string list) list" where
  "analyzeFiles fs previousHashes [] = Inr []"
| "analyzeFiles fs previousHashes (file # rest) =
     (case analyzeFile fs previousHashes file of
        Inl e \<Rightarrow> Inl e
      | Inr c \<Rightarrow>
          (case analyzeFiles fs previousHashes rest of
             Inl e \<Rightarrow> Inl e
           | Inr cs \<Rightarrow> Inr (c # cs)))"

text \<open>The second loop: every key of the ledger that is no discovered path.\<close>

definition deletedChanges :: "DiscoveredFile list \<Rightarrow> FileHashes option \<Rightarrow> FileChange list" where
  "deletedChanges files previousHashes =
     (case previousHashes of
        None \<Rightarrow> []
      | Some ph \<Rightarrow>
          map (\<lambda>prevPath. \<lparr>fc_path = prevPath, fc_status = Deleted, fc_hash = None\<rparr>)
            (filter (\<lambda>prevPath. prevPath \<notin> set (map path files)) (map fst (fh_files ph))))"

text \<open>
  \<open>analyzeChanges\<close> returns the verdicts; the model adds, per discovered file, the calls
  of \<open>computeFileHash\<close> made for it.
\<close>

definition analyzeChanges ::
  "FileSystem \<Rightarrow> DiscoveredFile list \<Rightarrow> FileHashes option \<Rightarrow>
   exn + (FileChange list \<times> string list list)" where
  "analyzeChanges fs files previousHashes =
     (case analyzeFiles fs previousHashes files of
        Inl e \<Rightarrow> Inl e
      | Inr cs \<Rightarrow> Inr (map fst cs @ deletedChanges files previousHashes, map snd cs))"

definition FILE_HASHES_SCHEMA_VERSION :: string where
  "FILE_HASHES_SCHEMA_VERSION = ''1.0.0''"

text \<open>
  \<open>buildFileHashes\<close>: \<open>fileMap\<close> is a \<open>Map\<close> built from the files, so the last file of a
  path wins; an entry is written with \<open>change.hash || computeFileHash(...)\<close>; writing a
  key again replaces its value in place. The ledger is a plain object: the key
  \<open>__proto__\<close> and the place of integer-like keys in its order are not covered.
\<close>

definition upsert :: "string \<Rightarrow> 'v \<Rightarrow> (string \<times> 'v) list \<Rightarrow> (string \<times> 'v) list" where
  "upsert k v kvs =
     (if k \<in> set (map fst kvs) then map (\<lambda>(k', v'). if k' = k then (k', v) else (k', v')) kvs
      else kvs @ [(k, v)])"

fun hashEntries ::
  "FileSystem \<Rightarrow> DiscoveredFile list \<Rightarrow> (string \<times> FileHashEntry) list \<Rightarrow> FileChange list \<Rightarrow>
   exn + (string \<times> FileHashEntry) list" where
  "hashEntries fs files acc [] = Inr acc"
| "hashEntries fs files acc (change # rest) =
     (if fc_status change = Deleted then hashEntries fs files acc rest
      else (case map_of (rev (map (\<lambda>f. (path f, f)) files)) (fc_path change) of
              None \<Rightarrow> hashEntries fs files acc rest
            | Some file \<Rightarrow>
                (case (case truthy_string (fc_hash change) of
                         Some h \<Rightarrow> Some h
                       | None \<Rightarrow> computeFileHash fs (absolutePath file)) of
                   None \<Rightarrow> Inl (ReadError (absolutePath file))
                 | Some h \<Rightarrow>
                     hashEntries fs files
                       (upsert (fc_path change)
                          \<lparr>fhe_hash = h, fhe_mtime = mtime file, fhe_size = fsize file\<rparr> acc)
                       rest)))"

definition buildFileHashes ::
  "FileSystem \<Rightarrow> FileChange list \<Rightarrow> DiscoveredFile list \<Rightarrow> string option \<Rightarrow> exn + FileHashes" where
  "buildFileHashes fs changes files gitCommit =
     (case hashEntries fs files [] changes of
        Inl e \<Rightarrow> Inl e
      | Inr hashesFiles \<Rightarrow>
          Inr \<lparr>fh_schema_version = FILE_HASHES_SCHEMA_VERSION, fh_git_commit = gitCommit,
               fh_files = hashesFiles\<rparr>)"

definition needsIndexing :: "FileChange \<Rightarrow> bool" where
  "needsIndexing c = (fc_status c = New \<or> fc_status c = Changed)"

definition getFilesToIndex :: "FileChange list \<Rightarrow> string list" where
  "getFilesToIndex changes = map fc_path (filter needsIndexing changes)"

definition getChangedCount :: "FileChange list \<Rightarrow> nat" where
  "getChangedCount changes = length (filter needsIndexing changes)"

text \<open>
  The artifact directory as the builder and the verifier read it back. A JSON artifact is
  absent, present but not readable or parseable (with the message of the error), or
  parsed; the symbol stream parses to the list of its non-blank lines, each the symbol it
  parses to or nothing when the line is no JSON.
\<close>

datatype 'a artifact = Absent | Garbled string | Parsed 'a

record IndexStats =
  total_files :: nat
  indexed_files :: int
  skipped_files :: nat
  total_symbols :: nat
  total_tests :: nat
  index_time_ms :: int

record IndexWarning =
  w_code :: string
  w_file :: "string option"
  w_message :: string

record MetaConfig =
  include_globs :: "string list"
  exclude_globs :: "string list"
  max_file_kb :: nat
  respect_gitignore :: bool
  adapters_used :: "string list"

record IndexMeta =
  schema_version :: string
  ark_version :: string
  generated_at :: string
  repo_root :: string
  git_commit :: "string option"
  status :: string
  stats :: IndexStats
  config :: MetaConfig
  warnings :: "IndexWarning list"

record TestMap =
  tm_schema_version :: string
  tests :: "TestEntry list"
  coverage_edges :: "(string \<times> string list) list"

record 'rm IndexDir =
  file_hashes_json :: "FileHashes artifact"
  symbols_jsonl :: "Symbol option list artifact"
  repo_map_json :: "'rm artifact"
  test_map_json :: "TestMap artifact"
  meta_json :: "IndexMeta artifact"

text \<open>
  \<open>loadFileHashes\<close>: nothing for a missing or corrupt file, for an empty
  \<open>schema_version\<close>, and for a major version other than the current one.
\<close>

definition major_of :: "string \<Rightarrow> string" where
  "major_of v = hd (split_on CHR ''.'' v)"

definition loadFileHashes :: "'rm IndexDir \<Rightarrow> FileHashes option" where
  "loadFileHashes dir =
     (case file_hashes_json dir of
        Absent \<Rightarrow> None
      | Garbled message \<Rightarrow> None
      | Parsed hashes \<Rightarrow>
          if fh_schema_version hashes = [] then None
          else if major_of (fh_schema_version hashes) \<noteq> major_of FILE_HASHES_SCHEMA_VERSION then None
          else Some hashes)"

text \<open>
  \<open>loadCachedSymbols\<close> groups the parsed lines by \<open>symbol.file\<close>; \<open>cache.get(p)\<close> is
  the list of the symbols of \<open>p\<close> in stream order and \<open>cache.has(p)\<close> says it is not
  empty.
\<close>

definition loadCachedSymbols :: "'rm IndexDir \<Rightarrow> Symbol list" where
  "loadCachedSymbols dir =
     (case symbols_jsonl dir of
        Absent \<Rightarrow> []
      | Garbled message \<Rightarrow> []
      | Parsed parsedLines \<Rightarrow> concat (map (\<lambda>l. case l of None \<Rightarrow> [] | Some s \<Rightarrow> [s]) parsedLines))"

definition cacheGet :: "Symbol list \<Rightarrow> string \<Rightarrow> Symbol list" where
  "cacheGet cachedSymbols p = filter (\<lambda>s. sym_file s = p) cachedSymbols"


section \<open>Configuration changes (invalidation.ts)\<close>

text \<open>
  \<open>arraysEqual\<close>: equal lengths, and the sorted copies agree at every index (the default
  sort compares strings by code units).
\<close>

definition arraysEqual :: "string list \<Rightarrow> string list \<Rightarrow> bool" where
  "arraysEqual a b =
     (if length a \<noteq> length b then False
      else (let sortedA = sort a; sortedB = sort b
            in list_all (\<lambda>idx. sortedA ! idx = sortedB ! idx) [0 ..< length sortedA]))"

record CurrentConfig =
  includeGlobs :: "string list"
  excludeGlobs :: "string list"
  maxFileKb :: nat
  respectGitignore :: bool
  cc_adapters :: "string list"

definition hasConfigChanged :: "CurrentConfig \<Rightarrow> IndexMeta option \<Rightarrow> bool" where
  "hasConfigChanged currentConfig previousMeta =
     (case previousMeta of
        None \<Rightarrow> False
      | Some pm \<Rightarrow>
          (let prevConfig = config pm
           in if \<not> arraysEqual (includeGlobs currentConfig) (include_globs prevConfig) then True
              else if \<not> arraysEqual (excludeGlobs currentConfig) (exclude_globs prevConfig) then True
              else if maxFileKb currentConfig \<noteq> max_file_kb prevConfig then True
              else if respectGitignore currentConfig \<noteq> respect_gitignore prevConfig then True
              else if \<not> arraysEqual (cc_adapters currentConfig) (adapters_used prevConfig) then True
              else False))"

definition loadIndexMeta :: "'rm IndexDir \<Rightarrow> IndexMeta option" where
  "loadIndexMeta dir =
     (case meta_json dir of Parsed m \<Rightarrow> Some m | Absent \<Rightarrow> None | Garbled message \<Rightarrow> None)"

section \<open>Test files and the test map (tests/detection.ts, test-map.ts)\<close>

definition CODE_EXTENSIONS :: "string list" where
  "CODE_EXTENSIONS =
     [''.js'', ''.jsx'', ''.ts'', ''.tsx'', ''.mjs'', ''.cjs'', ''.py'', ''.pyi'', ''.rs'', ''.go'',
      ''.java'', ''.kt'', ''.kts'', ''.c'', ''.h'', ''.cpp'', ''.hpp'', ''.cc'', ''.hh'', ''.rb'',
      ''.php'', ''.sh'', ''.bash'', ''.zsh'', ''.swift'', ''.scala'', ''.clj'', ''.ex'', ''.exs'',
      ''.erl'', ''.hs'']"

definition isCodeFile :: "string \<Rightarrow> bool" where
  "isCodeFile filePath = (toLowerCase (extname filePath) \<in> set CODE_EXTENSIONS)"

text \<open>\<open>path.dirname\<close> on a relative forward-slash path: \<open>.\<close> for a bare file name.\<close>

definition dirname :: "string \<Rightarrow> string" where
  "dirname p =
     (let parts = split_on CHR ''/'' p
      in if length parts \<le> 1 then ''.'' else join ''/'' (butlast parts))"

text \<open>
  The file-name patterns. \<open>[jt]sx?$\<close> is one of four endings; \<open>test_.*\.py$\<close> asks for
  \<open>test_\<close> somewhere before the final \<open>.py\<close> with no line terminator in between.
\<close>

definition js_endings :: "string \<Rightarrow> string list" where
  "js_endings stem = [stem @ ''js'', stem @ ''jsx'', stem @ ''ts'', stem @ ''tsx'']"

fun test_underscore_before :: "string \<Rightarrow> bool" where
  "test_underscore_before [] = False"
| "test_underscore_before (c # cs) =
     ((prefix ''test_'' (c # cs) \<and> \<not> list_ex is_line_terminator (drop 5 (c # cs)))
      \<or> test_underscore_before cs)"

definition matchesTestFilePattern :: "string \<Rightarrow> bool" where
  "matchesTestFilePattern base =
     (list_ex (endsWith base)
        (js_endings ''.test.'' @ js_endings ''.spec.'' @ js_endings ''_test.'' @ js_endings ''_spec.'')
      \<or> endsWith base ''_test.py''
      \<or> (endsWith base ''.py'' \<and> test_underscore_before (take (length base - 3) base))
      \<or> endsWith base ''_test.go''
      \<or> endsWith base ''_test.rs''
      \<or> endsWith base ''tests.rs'')"

definition TEST_DIR_PATTERNS :: "string list" where
  "TEST_DIR_PATTERNS =
     [''__tests__'', ''tests'', ''test'', ''spec'', ''specs'', ''__test__'', ''__spec__'', ''__specs__'']"

definition isTestFile :: "string \<Rightarrow> bool" where
  "isTestFile filePath =
     (if \<not> isCodeFile filePath then False
      else if matchesTestFilePattern (basename filePath) then True
      else list_ex (\<lambda>part. part \<in> set TEST_DIR_PATTERNS) (split_on CHR ''/'' (dirname filePath)))"

definition findTestFiles :: "DiscoveredFile list \<Rightarrow> DiscoveredFile list" where
  "findTestFiles files = filter (\<lambda>file. isTestFile (path file)) files"

definition TEST_MAP_SCHEMA_VERSION :: string where
  "TEST_MAP_SCHEMA_VERSION = ''1.0.0''"

definition readText :: "FileSystem \<Rightarrow> string \<Rightarrow> string option" where
  "readText fs p = (case fs_readFile fs p of Inl message \<Rightarrow> None | Inr content \<Rightarrow> Some content)"

definition buildTestMap :: "FileSystem \<Rightarrow> DiscoveredFile list \<Rightarrow> TestMap" where
  "buildTestMap fs files =
     \<lparr>tm_schema_version = TEST_MAP_SCHEMA_VERSION,
      tests = buildTestEntries (readText fs) (findTestFiles files),
      coverage_edges = []\<rparr>"


section \<open>The builder (builder.ts)\<close>

record IndexBuildOptions =
  o_force :: bool
  o_arkDir :: string
  o_repoRoot :: string
  o_includeGlobs :: "string list"
  o_excludeGlobs :: "string list"
  o_maxFileKb :: nat
  o_maxFiles :: nat
  o_respectGitignore :: bool
  o_adapters :: "IndexAdapter list"
  o_verbose :: bool

record DiscoveryResult =
  d_files :: "DiscoveredFile list"
  d_skipped :: "(string \<times> string) list"
  d_errors :: "(string \<times> string) list"

text \<open>
  What a build reads from outside: whether ripgrep runs, the commit of HEAD, the result of
  \<open>discoverFiles\<close> for the options of this build, the file system, the clock, and how
  many artifact files the writer can replace before a write fails (five or more: none
  fails) with the message of that failure. The repo map and the extractors for Python, Rust and Go are computed by code
  that is not modelled and are taken as given.
\<close>

record 'rm World =
  rg_available :: bool
  git_head :: "string option"
  discovered :: DiscoveryResult
  w_fs :: FileSystem
  w_baseline :: BaselineExtractors
  repo_map_of :: "DiscoveredFile list \<Rightarrow> string \<Rightarrow> 'rm"
  start_time :: int
  end_time :: int
  now_iso :: string
  writable :: nat
  write_error :: string

record BuildStats = IndexStats +
  incremental :: bool
  files_changed :: nat

record IndexBuildResult =
  success :: bool
  br_error :: "(string \<times> string) option"
  br_stats :: "BuildStats option"
  br_warnings :: "IndexWarning list"

definition META_SCHEMA_VERSION :: string where
  "META_SCHEMA_VERSION = ''1.0.0''"

definition ARK_VERSION :: string where
  "ARK_VERSION = ''0.1.0''"

definition failure :: "string \<Rightarrow> string \<Rightarrow> IndexWarning list \<Rightarrow> IndexBuildResult" where
  "failure code message ws =
     \<lparr>success = False, br_error = Some (code, message), br_stats = None, br_warnings = ws\<rparr>"

text \<open>
  The state of the extraction loop: the symbols so far, the set of identifiers, the
  warnings and the names of the adapters used (a \<open>Set\<close>, kept in insertion order).
\<close>

record LoopState =
  allSymbols :: "Symbol list"
  existingIds :: "string set"
  ls_warnings :: "IndexWarning list"
  adaptersUsed :: "string list"

definition setAdd :: "string \<Rightarrow> string list \<Rightarrow> string list" where
  "setAdd x xs = (if x \<in> set xs then xs else xs @ [x])"

text \<open>
  One round of the loop over \<open>discovery.files\<close>. A file that needs no extraction and
  has cached symbols takes them over unchanged, their identifiers going into the set
  without any check; every other file is extracted.
\<close>

definition symbolStep ::
  "FileSystem \<Rightarrow> BaselineExtractors \<Rightarrow> IndexAdapter list \<Rightarrow> string list \<Rightarrow> Symbol list \<Rightarrow>
   LoopState \<Rightarrow> DiscoveredFile \<Rightarrow> LoopState" where
  "symbolStep fs bx adapters filesToIndex cachedSymbols st file =
     (let needsExtraction = (path file \<in> set filesToIndex);
          cached = cacheGet cachedSymbols (path file)
      in if \<not> needsExtraction \<and> cached \<noteq> [] then
           st\<lparr>allSymbols := allSymbols st @ cached,
              existingIds := existingIds st \<union> set (map symbol_id cached)\<rparr>
         else
           (let (result, ids) =
                  extractSymbolsFromFile fs bx (path file) (absolutePath file) adapters
                    (existingIds st)
            in \<lparr>allSymbols = allSymbols st @ er_symbols result,
                 existingIds = ids,
                 ls_warnings =
                   (case er_error result of
                      None \<Rightarrow> ls_warnings st
                    | Some message \<Rightarrow>
                        if message \<noteq> [] then
                          ls_warnings st @
                            [\<lparr>w_code = ''ARK_INDEX_EXTRACTION_ERROR'', w_file = Some (path file),
                              w_message = message\<rparr>]
                        else ls_warnings st),
                 adaptersUsed =
                   (case er_adapterUsed result of
                      None \<Rightarrow> adaptersUsed st
                    | Some a \<Rightarrow> if a \<noteq> [] then setAdd a (adaptersUsed st) else adaptersUsed st)\<rparr>))"

definition symbolLoop ::
  "FileSystem \<Rightarrow> BaselineExtractors \<Rightarrow> IndexAdapter list \<Rightarrow> string list \<Rightarrow> Symbol list \<Rightarrow>
   IndexWarning list \<Rightarrow> DiscoveredFile list \<Rightarrow> LoopState" where
  "symbolLoop fs bx adapters filesToIndex cachedSymbols ws files =
     foldl (symbolStep fs bx adapters filesToIndex cachedSymbols)
       \<lparr>allSymbols = [], existingIds = {}, ls_warnings = ws, adaptersUsed = []\<rparr> files"

text \<open>
  \<open>writeIndexFiles\<close> on the parsed view of the directory: the five artifacts are
  replaced in the writer's order, each in one step; with \<open>budget\<close> below five the write
  after the last replaced artifact throws.
\<close>

definition writeIndexFiles ::
  "nat \<Rightarrow> 'rm IndexDir \<Rightarrow> IndexMeta \<Rightarrow> 'rm \<Rightarrow> TestMap \<Rightarrow> FileHashes \<Rightarrow> Symbol list \<Rightarrow>
   bool \<times> 'rm IndexDir" where
  "writeIndexFiles budget dir meta repoMap testMap fileHashes syms =
     (let d1 = (if budget \<ge> 1 then dir\<lparr>file_hashes_json := Parsed fileHashes\<rparr> else dir);
          d2 = (if budget \<ge> 2 then d1\<lparr>symbols_jsonl := Parsed (map Some syms)\<rparr> else d1);
          d3 = (if budget \<ge> 3 then d2\<lparr>repo_map_json := Parsed repoMap\<rparr> else d2);
          d4 = (if budget \<ge> 4 then d3\<lparr>test_map_json := Parsed testMap\<rparr> else d3);
          d5 = (if budget \<ge> 5 then d4\<lparr>meta_json := Parsed meta\<rparr> else d4)
      in (budget \<ge> 5, d5))"

definition skippedWarnings :: "(string \<times> string) list \<Rightarrow> IndexWarning list" where
  "skippedWarnings skipped =
     map (\<lambda>(p, reason). \<lparr>w_code = ''ARK_INDEX_FILE_SKIPPED'', w_file = Some p, w_message = reason\<rparr>)
       skipped"

text \<open>
  \<open>buildIndex\<close>. The result is the value the promise resolves to and the directory
  afterwards, or the exception the promise rejects with (\<open>computeFileHash\<close> is called
  outside any \<open>try\<close>).
\<close>

definition buildIndex ::
  "IndexBuildOptions \<Rightarrow> 'rm World \<Rightarrow> 'rm IndexDir \<Rightarrow> exn + (IndexBuildResult \<times> 'rm IndexDir)" where
  "buildIndex options w dir =
     (if \<not> rg_available w then
        Inr (failure ''ARK_INDEX_RIPGREP_MISSING'' ''ripgrep (rg) is not installed or not in PATH'' [],
             dir)
      else
        (let gitCommit = git_head w;
             previousMeta = loadIndexMeta dir;
             previousHashes = (if o_force options then None else loadFileHashes dir);
             currentConfig =
               \<lparr>includeGlobs = o_includeGlobs options, excludeGlobs = o_excludeGlobs options,
                maxFileKb = o_maxFileKb options, respectGitignore = o_respectGitignore options,
                cc_adapters = map adapter_name (o_adapters options)\<rparr>;
             configChanged = hasConfigChanged currentConfig previousMeta;
             forceFullIndex = (o_force options \<or> configChanged);
             discovery = discovered w;
             files = d_files discovery
         in case find (\<lambda>err. str_includes (snd err) ''exceeding max_files'') (d_errors discovery) of
              Some err \<Rightarrow> Inr (failure ''ARK_INDEX_TOO_MANY_FILES'' (snd err) [], dir)
            | None \<Rightarrow>
                (case (if forceFullIndex then
                         Inr (map (\<lambda>f. \<lparr>fc_path = path f, fc_status = New, fc_hash = None\<rparr>) files)
                       else map_sum id fst (analyzeChanges (w_fs w) files previousHashes)) of
                   Inl e \<Rightarrow> Inl e
                 | Inr changes \<Rightarrow>
                     (let filesToIndex =
                            (if forceFullIndex then map path files else getFilesToIndex changes);
                          filesChanged =
                            (if forceFullIndex then length files else getChangedCount changes);
                          isIncremental = (\<not> forceFullIndex \<and> previousHashes \<noteq> None);
                          cachedSymbols = (if isIncremental then loadCachedSymbols dir else []);
                          st = symbolLoop (w_fs w) (w_baseline w) (o_adapters options) filesToIndex
                                 cachedSymbols (skippedWarnings (d_skipped discovery)) files;
                          repoMap = repo_map_of w files (o_repoRoot options);
                          testMap = buildTestMap (w_fs w) files
                      in case buildFileHashes (w_fs w) changes files gitCommit of
                           Inl e \<Rightarrow> Inl e
                         | Inr fileHashes \<Rightarrow>
                             (let sts =
                                    \<lparr>total_files = length files,
                                     indexed_files = int (length files) - int (length (d_skipped discovery)),
                                     skipped_files = length (d_skipped discovery),
                                     total_symbols = length (allSymbols st),
                                     total_tests = length (tests testMap),
                                     index_time_ms = end_time w - start_time w,
                                     incremental = isIncremental,
                                     files_changed = filesChanged\<rparr>;
                                  meta =
                                    \<lparr>schema_version = META_SCHEMA_VERSION,
                                     ark_version = ARK_VERSION,
                                     generated_at = now_iso w,
                                     repo_root = o_repoRoot options,
                                     git_commit = gitCommit,
                                     status = (if length (ls_warnings st) > 0 then ''partial''
                                               else ''success''),
                                     stats = IndexStats.truncate sts,
                                     config =
                                       \<lparr>include_globs = o_includeGlobs options,
                                        exclude_globs = o_excludeGlobs options,
                                        max_file_kb = o_maxFileKb options,
                                        respect_gitignore = o_respectGitignore options,
                                        adapters_used = adaptersUsed st\<rparr>,
                                     warnings = ls_warnings st\<rparr>;
                                  (written, dir') =
                                    writeIndexFiles (writable w) dir meta repoMap testMap fileHashes
                                      (allSymbols st)
                              in if \<not> written then
                                   Inr (failure ''ARK_INDEX_WRITE_ERROR''
                                          (''Failed to write index files: '' @ write_error w)
                                          (ls_warnings st), dir')
                                 else
                                   Inr (\<lparr>success = True, br_error = None, br_stats = Some sts,
                                         br_warnings = ls_warnings st\<rparr>, dir'))))))"

section \<open>The verifier (invalidation.ts)\<close>


text \<open>
  The verifier reads the five files itself and keeps what \<open>JSON.parse\<close> returns, with no
  check of its shape: any JSON value. An object is the list of its members as the text has
  them; of two members with one key the later one is the property. The numbers of the
  engine are of a type \<open>'n\<close>, read through two functions: the text of a number in a
  template literal, and whether a number is strictly equal to a given count.
\<close>

datatype 'n json =
  JNull
| JBool bool
| JNum 'n
| JStr string
| JArr "'n json list"
| JObj "(string \<times> 'n json) list"





















section \<open>The writer on a disk (writer.ts)\<close>

text \<open>
  The writer's two file system calls, and a disk that records them: its files and the
  calls that succeeded, in order. Whether a call succeeds is decided by \<open>ok\<close>; a
  rename also needs its source. A call that fails throws, and the exception carries the
  disk as it is at that moment.
\<close>

datatype fs_op = WriteFile string string | Rename string string

record Disk =
  dk_files :: "string \<Rightarrow> string option"
  dk_trace :: "fs_op list"

type_synonym io = "(exn \<times> Disk) + Disk"

definition writeFileSync :: "(fs_op \<Rightarrow> bool) \<Rightarrow> string \<Rightarrow> string \<Rightarrow> Disk \<Rightarrow> io" where
  "writeFileSync ok p content d =
     (if ok (WriteFile p content) then
        Inr \<lparr>dk_files = (dk_files d)(p \<mapsto> content),
             dk_trace = dk_trace d @ [WriteFile p content]\<rparr>
      else Inl (IOError p, d))"

definition renameSync :: "(fs_op \<Rightarrow> bool) \<Rightarrow> string \<Rightarrow> string \<Rightarrow> Disk \<Rightarrow> io" where
  "renameSync ok src dst d =
     (case dk_files d src of
        None \<Rightarrow> Inl (IOError src, d)
      | Some content \<Rightarrow>
          if ok (Rename src dst) then
            Inr \<lparr>dk_files = ((dk_files d)(src := None))(dst \<mapsto> content),
                 dk_trace = dk_trace d @ [Rename src dst]\<rparr>
          else Inl (IOError src, d))"

definition and_then :: "io \<Rightarrow> (Disk \<Rightarrow> io) \<Rightarrow> io" where
  "and_then r f = (case r of Inl e \<Rightarrow> Inl e | Inr d \<Rightarrow> f d)"

text \<open>
  \<open>path.join(dir, name)\<close> for a normalized directory without a trailing slash and a
  plain file name.
\<close>

definition path_join :: "string \<Rightarrow> string \<Rightarrow> string" where
  "path_join dir name = dir @ ''/'' @ name"

definition tempPathOf :: "string \<Rightarrow> string" where
  "tempPathOf filePath = path_join (dirname filePath) (''.'' @ basename filePath @ ''.tmp'')"

text \<open>
  \<open>JSON.stringify\<close> is taken as given, one function per artifact type (\<open>stringify\<close>
  with indentation for the JSON artifacts, without for a symbol).
\<close>

record 'rm Serializers =
  ser_meta :: "IndexMeta \<Rightarrow> string"
  ser_repo_map :: "'rm \<Rightarrow> string"
  ser_test_map :: "TestMap \<Rightarrow> string"
  ser_file_hashes :: "FileHashes \<Rightarrow> string"
  ser_symbol :: "Symbol \<Rightarrow> string"

definition writeJsonAtomic :: "(fs_op \<Rightarrow> bool) \<Rightarrow> string \<Rightarrow> string \<Rightarrow> Disk \<Rightarrow> io" where
  "writeJsonAtomic ok filePath json d =
     (let tempPath = tempPathOf filePath
      in and_then (writeFileSync ok tempPath json d) (renameSync ok tempPath filePath))"

text \<open>\<open>lines.join('\n') + (lines.length > 0 ? '\n' : '')\<close>.\<close>

definition symbolsText :: "(Symbol \<Rightarrow> string) \<Rightarrow> Symbol list \<Rightarrow> string" where
  "symbolsText ser syms =
     (let lines = map ser syms
      in join [CHR 0x0A] lines @ (if length lines > 0 then [CHR 0x0A] else []))"

definition writeSymbolsAtomic ::
  "(fs_op \<Rightarrow> bool) \<Rightarrow> (Symbol \<Rightarrow> string) \<Rightarrow> string \<Rightarrow> Symbol list \<Rightarrow> Disk \<Rightarrow> io" where
  "writeSymbolsAtomic ok ser filePath syms d =
     (let tempPath = tempPathOf filePath
      in and_then (writeFileSync ok tempPath (symbolsText ser syms) d)
           (renameSync ok tempPath filePath))"

definition writeIndexFilesOnDisk ::
  "(fs_op \<Rightarrow> bool) \<Rightarrow> 'rm Serializers \<Rightarrow> string \<Rightarrow> IndexMeta \<Rightarrow> 'rm \<Rightarrow> TestMap \<Rightarrow> FileHashes \<Rightarrow>
   Symbol list \<Rightarrow> Disk \<Rightarrow> io" where
  "writeIndexFilesOnDisk ok ser indexDir meta repoMap testMap fileHashes syms d =
     and_then
       (and_then
          (and_then
             (and_then
                (writeJsonAtomic ok (path_join indexDir ''file_hashes.json'')
                   (ser_file_hashes ser fileHashes) d)
                (writeSymbolsAtomic ok (ser_symbol ser) (path_join indexDir ''symbols.jsonl'') syms))
             (writeJsonAtomic ok (path_join indexDir ''repo_map.json'') (ser_repo_map ser repoMap)))
          (writeJsonAtomic ok (path_join indexDir ''test_map.json'') (ser_test_map ser testMap)))
       (writeJsonAtomic ok (path_join indexDir ''meta.json'') (ser_meta ser meta))"

definition diskOf :: "io \<Rightarrow> Disk" where
  "diskOf r = (case r of Inl (e, d) \<Rightarrow> d | Inr d \<Rightarrow> d)"

text \<open>
  The ten calls of the specification, in its order: for each artifact the serialized
  text goes to \<open>{dir}/.{name}.tmp\<close>, which is then renamed to \<open>{dir}/{name}\<close>.
\<close>

definition atomicWrite :: "string \<Rightarrow> string \<Rightarrow> string \<Rightarrow> fs_op list" where
  "atomicWrite dir name content =
     [WriteFile (dir @ ''/.'' @ name @ ''.tmp'') content,
      Rename (dir @ ''/.'' @ name @ ''.tmp'') (dir @ ''/'' @ name)]"

definition specWrites ::
  "'rm Serializers \<Rightarrow> string \<Rightarrow> IndexMeta \<Rightarrow> 'rm \<Rightarrow> TestMap \<Rightarrow> FileHashes \<Rightarrow> Symbol list \<Rightarrow>
   fs_op list" where
  "specWrites ser dir meta repoMap testMap fileHashes syms =
     atomicWrite dir ''file_hashes.json'' (ser_file_hashes ser fileHashes) @
     atomicWrite dir ''symbols.jsonl'' (concat (map (\<lambda>s. ser_symbol ser s @ [CHR 0x0A]) syms)) @
     atomicWrite dir ''repo_map.json'' (ser_repo_map ser repoMap) @
     atomicWrite dir ''test_map.json'' (ser_test_map ser testMap) @
     atomicWrite dir ''meta.json'' (ser_meta ser meta)"

text \<open>
  A computation performs a list of calls when, from every disk, the calls it adds to the
  trace are an initial part of the list, all of it when it returns, and it returns when
  every call of the list is allowed.
\<close>

definition performs :: "(fs_op \<Rightarrow> bool) \<Rightarrow> fs_op list \<Rightarrow> (Disk \<Rightarrow> io) \<Rightarrow> bool" where
  "performs ok calls f =
     (\<forall>d. (\<exists>k\<le>length calls. dk_trace (diskOf (f d)) = dk_trace d @ take k calls) \<and>
          (list_all ok calls \<longrightarrow> (\<exists>d'. f d = Inr d')) \<and>
          (\<forall>d'. f d = Inr d' \<longrightarrow> dk_trace d' = dk_trace d @ calls))"

section \<open>Subdirectories of a module (modules.ts)\<close>

definition IMPORTANT_SUBDIRS :: "string list" where
  "IMPORTANT_SUBDIRS =
     [''components'', ''lib'', ''hooks'', ''utils'', ''services'', ''handlers'', ''actions'', ''api'',
      ''store'', ''data'', ''types'', ''models'', ''views'', ''controllers'', ''middleware'',
      ''routes'', ''pages'', ''features'', ''modules'', ''core'', ''common'', ''shared'']"

definition SUBDIR_DESCRIPTIONS :: "(string \<times> string) list" where
  "SUBDIR_DESCRIPTIONS =
     [(''components'', ''React/UI components''), (''lib'', ''Utility libraries''),
      (''hooks'', ''React hooks''), (''utils'', ''Utility functions''),
      (''services'', ''Service layer''), (''handlers'', ''Request/event handlers''),
      (''actions'', ''Action creators/handlers''), (''api'', ''API layer''),
      (''store'', ''State management''), (''data'', ''Data definitions and content''),
      (''types'', ''Type definitions''), (''models'', ''Data models''),
      (''views'', ''View components''), (''controllers'', ''Controllers''),
      (''middleware'', ''Middleware functions''), (''routes'', ''Route definitions''),
      (''pages'', ''Page components''), (''features'', ''Feature modules''),
      (''modules'', ''Application modules''), (''core'', ''Core functionality''),
      (''common'', ''Common/shared code''), (''shared'', ''Shared utilities'')]"

definition MIN_CODE_FILES_FOR_SUBDIR :: nat where
  "MIN_CODE_FILES_FOR_SUBDIR = 3"

definition MAX_SUBDIRS_PER_MODULE :: nat where
  "MAX_SUBDIRS_PER_MODULE = 10"

definition LARGE_DIR_THRESHOLD :: nat where
  "LARGE_DIR_THRESHOLD = 20"

record DirData =
  dd_files :: "DiscoveredFile list"
  dd_codeFiles :: "DiscoveredFile list"
  dd_isImportant :: bool
  dd_depth :: nat

record SubDirectory =
  sd_name :: string
  sd_path :: string
  fileCount :: nat
  codeFileCount :: nat
  sd_key_files :: "string list"
  sd_description :: "string option"

record Candidate =
  c_subdir :: SubDirectory
  c_score :: int
  c_hasImportantChildren :: bool

text \<open>
  A \<open>Map\<close> is a list of pairs with distinct keys in insertion order; \<open>adjust\<close> changes
  the value of a key in place.
\<close>

definition adjust :: "string \<Rightarrow> ('v \<Rightarrow> 'v) \<Rightarrow> (string \<times> 'v) list \<Rightarrow> (string \<times> 'v) list" where
  "adjust k f kvs = map (\<lambda>(k', v). if k' = k then (k', f v) else (k', v)) kvs"

text \<open>
  The first loop: a file is booked on each of its directory levels below the module, down
  to \<open>depth\<close>; a level that is itself a module is skipped.
\<close>

definition levelStep ::
  "string \<Rightarrow> string set \<Rightarrow> DiscoveredFile \<Rightarrow> string list \<Rightarrow> (string \<times> DirData) list \<Rightarrow> nat \<Rightarrow>
   (string \<times> DirData) list" where
  "levelStep normalizedModulePath modulePaths file parts subdirMap i =
     (let subdirRelPath = join ''/'' (take (i + 1) parts);
          subdirFullPath = (if normalizedModulePath \<noteq> []
                            then normalizedModulePath @ ''/'' @ subdirRelPath
                            else subdirRelPath);
          subdirName = parts ! i
      in if subdirFullPath \<in> modulePaths then subdirMap
         else
           (let m1 = (if subdirFullPath \<in> set (map fst subdirMap) then subdirMap
                      else subdirMap @
                             [(subdirFullPath,
                               \<lparr>dd_files = [], dd_codeFiles = [],
                                dd_isImportant = (subdirName \<in> set IMPORTANT_SUBDIRS),
                                dd_depth = i + 1\<rparr>)])
            in adjust subdirFullPath
                 (\<lambda>data. data\<lparr>dd_files := dd_files data @ [file],
                               dd_codeFiles := (if isCodeFile (path file)
                                                then dd_codeFiles data @ [file]
                                                else dd_codeFiles data)\<rparr>)
                 m1))"

definition bookFile ::
  "string \<Rightarrow> string set \<Rightarrow> nat \<Rightarrow> (string \<times> DirData) list \<Rightarrow> DiscoveredFile \<Rightarrow>
   (string \<times> DirData) list" where
  "bookFile normalizedModulePath modulePaths depth subdirMap file =
     (let relPath = (if normalizedModulePath \<noteq> []
                     then drop (length normalizedModulePath + 1) (path file)
                     else path file);
          parts = split_on CHR ''/'' relPath
      in foldl (levelStep normalizedModulePath modulePaths file parts) subdirMap
           [0 ..< min (length parts - 1) depth])"

text \<open>
  The second loop, over the entries in order, reading the map as the earlier rounds left
  it: below a large important directory, a directory with an important name or at least
  six code files becomes important.
\<close>

definition isStrictlyBelow :: "string \<Rightarrow> string \<Rightarrow> bool" where
  "isStrictlyBelow childPath parentPath =
     (startsWith childPath (parentPath @ ''/'') \<and> childPath \<noteq> parentPath)"

definition promoteStep :: "(string \<times> DirData) list \<Rightarrow> string \<Rightarrow> (string \<times> DirData) list" where
  "promoteStep subdirMap parentPath =
     (case map_of subdirMap parentPath of
        None \<Rightarrow> subdirMap
      | Some parentData \<Rightarrow>
          if length (dd_codeFiles parentData) \<ge> LARGE_DIR_THRESHOLD \<and> dd_isImportant parentData then
            map (\<lambda>(childPath, childData).
                   if isStrictlyBelow childPath parentPath \<and>
                      (basename childPath \<in> set IMPORTANT_SUBDIRS \<or>
                       length (dd_codeFiles childData) \<ge> MIN_CODE_FILES_FOR_SUBDIR * 2)
                   then (childPath, childData\<lparr>dd_isImportant := True\<rparr>)
                   else (childPath, childData))
              subdirMap
          else subdirMap)"

definition promote :: "(string \<times> DirData) list \<Rightarrow> (string \<times> DirData) list" where
  "promote subdirMap = foldl promoteStep subdirMap (map fst subdirMap)"

text \<open>
  The third loop: the candidates with their scores. \<open>SUBDIR_DESCRIPTIONS\<close> is read by
  its own keys: a directory named like a member of \<open>Object.prototype\<close> is not covered.
\<close>

definition candidateOf :: "(string \<times> DirData) list \<Rightarrow> string \<times> DirData \<Rightarrow> Candidate list" where
  "candidateOf subdirMap entry =
     (let subdirPath = fst entry;
          data = snd entry;
          subdirName = basename subdirPath;
          hasEnoughCode = (length (dd_codeFiles data) \<ge> MIN_CODE_FILES_FOR_SUBDIR)
      in if \<not> dd_isImportant data \<and> \<not> hasEnoughCode then []
         else
           (let hasImportantChildren =
                  list_ex (\<lambda>(otherPath, otherData).
                             isStrictlyBelow otherPath subdirPath \<and> dd_isImportant otherData \<and>
                             length (dd_codeFiles otherData) \<ge> MIN_CODE_FILES_FOR_SUBDIR)
                    subdirMap;
                score = int (length (dd_codeFiles data))
                        + (if dd_isImportant data then 50 else 0)
                        - (if hasImportantChildren \<and> length (dd_codeFiles data) > LARGE_DIR_THRESHOLD
                           then 30 else 0)
                        + (if dd_depth data > 1 then 10 else 0)
            in [\<lparr>c_subdir =
                    \<lparr>sd_name = subdirName, sd_path = subdirPath,
                     fileCount = length (dd_files data),
                     codeFileCount = length (dd_codeFiles data),
                     sd_key_files = [],
                     sd_description = map_of SUBDIR_DESCRIPTIONS subdirName\<rparr>,
                  c_score = score,
                  c_hasImportantChildren = hasImportantChildren\<rparr>]))"

text \<open>
  \<open>Array.prototype.sort\<close> with a comparison function is stable; for a consistent
  comparison its result is that of insertion from the right.
\<close>

fun insert_by :: "('a \<Rightarrow> 'a \<Rightarrow> int) \<Rightarrow> 'a \<Rightarrow> 'a list \<Rightarrow> 'a list" where
  "insert_by cmp x [] = [x]"
| "insert_by cmp x (y # ys) = (if cmp x y \<le> 0 then x # y # ys else y # insert_by cmp x ys)"

definition sort_by :: "('a \<Rightarrow> 'a \<Rightarrow> int) \<Rightarrow> 'a list \<Rightarrow> 'a list" where
  "sort_by cmp xs = foldr (insert_by cmp) xs []"

definition subdirCandidates ::
  "DiscoveredFile list \<Rightarrow> string \<Rightarrow> string set \<Rightarrow> nat \<Rightarrow> Candidate list" where
  "subdirCandidates files modulePath modulePaths depth =
     (let normalizedModulePath = (if modulePath = ''.'' then [] else modulePath);
          moduleFiles = filter (\<lambda>file. if normalizedModulePath = [] then True
                                       else startsWith (path file) (normalizedModulePath @ ''/''))
                          files;
          subdirMap = promote (foldl (bookFile normalizedModulePath modulePaths depth) [] moduleFiles);
          candidates = concat (map (candidateOf subdirMap) subdirMap)
      in sort_by (\<lambda>a b. c_score b - c_score a) candidates)"

text \<open>
  The direct counts: a candidate's code file count minus the counts of all candidates
  below it, not below zero; kept in a \<open>Map\<close> by path.
\<close>

definition directCountFor :: "Candidate list \<Rightarrow> Candidate \<Rightarrow> nat" where
  "directCountFor candidates candidate =
     (let childPaths = map (\<lambda>c. sd_path (c_subdir c))
                         (filter (\<lambda>c. isStrictlyBelow (sd_path (c_subdir c)) (sd_path (c_subdir candidate)))
                            candidates);
          directCount =
            foldl (\<lambda>n childPath.
                     case find (\<lambda>c. sd_path (c_subdir c) = childPath) candidates of
                       None \<Rightarrow> n
                     | Some childCandidate \<Rightarrow> n - int (codeFileCount (c_subdir childCandidate)))
              (int (codeFileCount (c_subdir candidate))) childPaths
      in nat (max 0 directCount))"

definition directFileCounts :: "Candidate list \<Rightarrow> (string \<times> nat) list" where
  "directFileCounts candidates =
     foldl (\<lambda>m candidate. upsert (sd_path (c_subdir candidate)) (directCountFor candidates candidate) m)
       [] candidates"

definition directCountOf :: "(string \<times> nat) list \<Rightarrow> string \<Rightarrow> nat" where
  "directCountOf counts p = (case map_of counts p of None \<Rightarrow> 0 | Some n \<Rightarrow> n)"

text \<open>
  The selection loop, with the entries selected so far (in selection order; their paths
  are \<open>selectedPaths\<close>). It stops when ten are selected.
\<close>

fun selectLoop :: "(string \<times> nat) list \<Rightarrow> SubDirectory list \<Rightarrow> Candidate list \<Rightarrow> SubDirectory list" where
  "selectLoop counts result [] = result"
| "selectLoop counts result (candidate # rest) =
     (let p = sd_path (c_subdir candidate);
          hasSelectedChild = list_ex (\<lambda>s. startsWith (sd_path s) (p @ ''/'')) result;
          directCount = directCountOf counts p;
          large = (c_hasImportantChildren candidate \<and>
                   codeFileCount (c_subdir candidate) > LARGE_DIR_THRESHOLD)
      in if large \<and> directCount < 10 then selectLoop counts result rest
         else
           (let subdir = (if large then (c_subdir candidate)\<lparr>codeFileCount := directCount\<rparr>
                          else c_subdir candidate)
            in if hasSelectedChild \<and> directCount < MIN_CODE_FILES_FOR_SUBDIR then
                 selectLoop counts result rest
               else
                 (let hasSelectedParent = list_ex (\<lambda>s. startsWith p (sd_path s @ ''/'')) result
                  in if hasSelectedParent \<and>
                        (case sd_description subdir of None \<Rightarrow> True | Some t \<Rightarrow> t = []) \<and>
                        codeFileCount subdir < 10
                     then selectLoop counts result rest
                     else if length (result @ [subdir]) \<ge> MAX_SUBDIRS_PER_MODULE
                     then result @ [subdir]
                     else selectLoop counts (result @ [subdir]) rest)))"

definition selectSubdirs :: "Candidate list \<Rightarrow> SubDirectory list" where
  "selectSubdirs candidates = selectLoop (directFileCounts candidates) [] candidates"

text \<open>
  \<open>detectSubdirectories\<close>. The last sort is by code file count, descending, then by
  \<open>localeCompare\<close> of the paths, which is taken as given.
\<close>

definition detectSubdirectories ::
  "(string \<Rightarrow> string \<Rightarrow> int) \<Rightarrow> DiscoveredFile list \<Rightarrow> string \<Rightarrow> string set \<Rightarrow> nat \<Rightarrow>
   SubDirectory list" where
  "detectSubdirectories localeCompare files modulePath modulePaths depth =
     sort_by (\<lambda>a b. if codeFileCount b \<noteq> codeFileCount a
                     then int (codeFileCount b) - int (codeFileCount a)
                     else localeCompare (sd_path a) (sd_path b))
       (selectSubdirs (subdirCandidates files modulePath modulePaths depth))"

section \<open>Inputs of the worked examples\<close>

definition two_adds_reader :: "string \<Rightarrow> string option" where
  "two_adds_reader p =
     Some (''it('' @ [CHR 0x27] @ ''adds'' @ [CHR 0x27] @ '', f)'' @ [CHR 0x0A] @
           ''it('' @ [CHR 0x27] @ ''adds'' @ [CHR 0x27] @ '', g)'')"

definition a_test_ts :: DiscoveredFile where
  "a_test_ts = \<lparr>path = ''src/a.test.ts'', absolutePath = ''/r/src/a.test.ts'', fsize = 40,
                 mtime = ''2024-01-01T00:00:00.000Z''\<rparr>"

text \<open>
  The file \<open>src/a.ts\<close> of the end-to-end scenario: \<open>export function f() {}\<close> on
  line 1, the class \<open>C\<close> opened on line 3 and its method \<open>f\<close> on line 5.
\<close>

definition a_ts_content :: string where
  "a_ts_content =
     ''export function f() {}'' @ [CHR 0x0A] @
     [CHR 0x0A] @
     ''export class C {'' @ [CHR 0x0A] @
     [CHR 0x0A] @
     ''  f() {}'' @ [CHR 0x0A] @
     ''}'' @ [CHR 0x0A]"

definition no_baseline :: BaselineExtractors where
  "no_baseline = \<lparr>extractPythonSymbols = (\<lambda>content filePath. []),
                   extractRustSymbols = (\<lambda>content filePath. []),
                   extractGoSymbols = (\<lambda>content filePath. [])\<rparr>"

definition a_ts_fs :: FileSystem where
  "a_ts_fs = \<lparr>fs_stat = (\<lambda>p. if p = ''/repo/src/a.ts'' then Some (''2024-01-01T00:00:00.000Z'', 55) else None),
               fs_readFile = (\<lambda>p. if p = ''/repo/src/a.ts'' then Inr a_ts_content
                                   else Inl ''ENOENT: no such file or directory''),
               fs_sha256hex = (\<lambda>content. ''00'')\<rparr>"

text \<open>What the scenarios read off a symbol: its identifier, kind and start line.\<close>

definition start_line :: "AdapterSymbol \<Rightarrow> nat" where
  "start_line s = line (span_start (as_span s))"

definition sym_view :: "Symbol \<Rightarrow> string \<times> SymbolKind \<times> nat" where
  "sym_view s =
     (symbol_id s, sym_kind s, (case sym_span s of None \<Rightarrow> 0 | Some sp \<Rightarrow> line (span_start sp)))"

text \<open>
  A repository of one file, read through a file system that knows only that file; the
  digest of the examples is the length of the content.
\<close>

definition one_file_fs :: "DiscoveredFile \<Rightarrow> string \<Rightarrow> FileSystem" where
  "one_file_fs f content =
     \<lparr>fs_stat = (\<lambda>p. if p = absolutePath f then Some (mtime f, fsize f) else None),
      fs_readFile = (\<lambda>p. if p = absolutePath f then Inr content
                          else Inl ''ENOENT: no such file or directory''),
      fs_sha256hex = (\<lambda>c. show_nat (length c))\<rparr>"

definition one_file_world :: "DiscoveredFile \<Rightarrow> string \<Rightarrow> unit World" where
  "one_file_world f content =
     \<lparr>rg_available = True,
      git_head = None,
      discovered = \<lparr>d_files = [f], d_skipped = [], d_errors = []\<rparr>,
      w_fs = one_file_fs f content,
      w_baseline = no_baseline,
      repo_map_of = (\<lambda>files root. ()),
      start_time = 0,
      end_time = 7,
      now_iso = ''2024-01-01T00:00:07.000Z'',
      writable = 5,
      write_error = []\<rparr>"

definition default_options :: "IndexAdapter list \<Rightarrow> IndexBuildOptions" where
  "default_options adapters =
     \<lparr>o_force = False, o_arkDir = ''/repo/.ark'', o_repoRoot = ''/repo'',
      o_includeGlobs = [''**/*''], o_excludeGlobs = [], o_maxFileKb = 256, o_maxFiles = 10000,
      o_respectGitignore = True, o_adapters = adapters, o_verbose = False\<rparr>"

definition empty_dir :: "unit IndexDir" where
  "empty_dir = \<lparr>file_hashes_json = Absent, symbols_jsonl = Absent, repo_map_json = Absent,
                 test_map_json = Absent, meta_json = Absent\<rparr>"

text \<open>
  A minified file with three functions \<open>a\<close> on its only line, and an adapter that
  reports the three declarations.
\<close>

definition min_js :: DiscoveredFile where
  "min_js = \<lparr>path = ''dist/min.js'', absolutePath = ''/repo/dist/min.js'', fsize = 42,
              mtime = ''2024-01-01T00:00:00.000Z''\<rparr>"

definition min_js_content :: string where
  "min_js_content = ''function a(){}function a(){}function a(){}''"

definition decl_a :: "int \<Rightarrow> AdapterSymbol" where
  "decl_a c =
     \<lparr>as_name = ''a'', as_kind = KFunction,
      as_span = \<lparr>span_start = \<lparr>line = 1, col = c\<rparr>, span_end = \<lparr>line = 1, col = c + 5\<rparr>\<rparr>,
      as_signature = Some ''function a()'', as_docstring = None, as_visibility = None\<rparr>"

definition ast_adapter :: IndexAdapter where
  "ast_adapter =
     \<lparr>adapter_name = ''ast'', isAvailable = Some True,
      extractSymbols = (\<lambda>p content. Some [decl_a 9, decl_a 23, decl_a 37])\<rparr>"

text \<open>A repository with a README only, and a configured adapter that is not available.\<close>

definition readme_md :: DiscoveredFile where
  "readme_md = \<lparr>path = ''README.md'', absolutePath = ''/repo/README.md'', fsize = 6,
                 mtime = ''2024-01-01T00:00:00.000Z''\<rparr>"

definition lsp_adapter :: IndexAdapter where
  "lsp_adapter =
     \<lparr>adapter_name = ''lsp'', isAvailable = Some False,
      extractSymbols = (\<lambda>p content. Some [])\<rparr>"

text \<open>The second of two runs: the directory the first run leaves is what the second reads.\<close>

definition secondRun ::
  "IndexBuildOptions \<Rightarrow> 'rm World \<Rightarrow> 'rm IndexDir \<Rightarrow> exn + (IndexBuildResult \<times> 'rm IndexDir)" where
  "secondRun options w dir =
     (case buildIndex options w dir of
        Inl e \<Rightarrow> Inl e
      | Inr (r1, dir1) \<Rightarrow> buildIndex options w dir1)"

definition symbolIdsOf :: "exn + (IndexBuildResult \<times> 'rm IndexDir) \<Rightarrow> string list option" where
  "symbolIdsOf r =
     (case r of
        Inl e \<Rightarrow> None
      | Inr (res, dir) \<Rightarrow> if success res then Some (map symbol_id (loadCachedSymbols dir)) else None)"

definition filesChangedOf :: "exn + (IndexBuildResult \<times> 'rm IndexDir) \<Rightarrow> nat option" where
  "filesChangedOf r =
     (case r of
        Inl e \<Rightarrow> None
      | Inr (res, dir) \<Rightarrow> map_option files_changed (br_stats res))"

text \<open>
  A ledger with four entries against three discovered files: \<open>a.ts\<close> with matching
  stats, \<open>b.ts\<close> touched (new modification time, same content), \<open>c.ts\<close> that cannot be
  stat-ed any more, and \<open>gone.ts\<close> that is not discovered.
\<close>

definition ledger_files :: "DiscoveredFile list" where
  "ledger_files =
     [\<lparr>path = ''a.ts'', absolutePath = ''/repo/a.ts'', fsize = 10, mtime = ''2024-01-01T00:00:00.000Z''\<rparr>,
      \<lparr>path = ''b.ts'', absolutePath = ''/repo/b.ts'', fsize = 20, mtime = ''2024-03-03T00:00:00.000Z''\<rparr>,
      \<lparr>path = ''c.ts'', absolutePath = ''/repo/c.ts'', fsize = 30, mtime = ''2024-01-01T00:00:00.000Z''\<rparr>]"

definition ledger_fs :: FileSystem where
  "ledger_fs =
     \<lparr>fs_stat = (\<lambda>p. if p = ''/repo/a.ts'' then Some (''2024-01-01T00:00:00.000Z'', 10)
                      else if p = ''/repo/b.ts'' then Some (''2024-03-03T00:00:00.000Z'', 20)
                      else None),
      fs_readFile = (\<lambda>p. if p = ''/repo/a.ts'' then Inr ''0123456789''
                          else if p = ''/repo/b.ts'' then Inr ''01234567890123456789''
                          else Inl ''ENOENT: no such file or directory''),
      fs_sha256hex = (\<lambda>c. show_nat (length c))\<rparr>"

definition ledger_prev :: FileHashes where
  "ledger_prev =
     \<lparr>fh_schema_version = ''1.0.0'', fh_git_commit = None,
      fh_files =
        [(''a.ts'', \<lparr>fhe_hash = ''sha256:10'', fhe_mtime = ''2024-01-01T00:00:00.000Z'', fhe_size = 10\<rparr>),
         (''b.ts'', \<lparr>fhe_hash = ''sha256:20'', fhe_mtime = ''2024-02-02T00:00:00.000Z'', fhe_size = 20\<rparr>),
         (''c.ts'', \<lparr>fhe_hash = ''sha256:30'', fhe_mtime = ''2024-01-01T00:00:00.000Z'', fhe_size = 30\<rparr>),
         (''gone.ts'', \<lparr>fhe_hash = ''sha256:5'', fhe_mtime = ''2024-01-01T00:00:00.000Z'', fhe_size = 5\<rparr>)]\<rparr>"

definition ledger_changes :: "FileChange list" where
  "ledger_changes =
     [\<lparr>fc_path = ''a.ts'', fc_status = Unchanged, fc_hash = Some ''sha256:10''\<rparr>,
      \<lparr>fc_path = ''b.ts'', fc_status = Unchanged, fc_hash = Some ''sha256:20''\<rparr>,
      \<lparr>fc_path = ''c.ts'', fc_status = Changed, fc_hash = None\<rparr>,
      \<lparr>fc_path = ''gone.ts'', fc_status = Deleted, fc_hash = None\<rparr>]"

text \<open>The metadata a successful build of the README repository leaves, with a given schema version.\<close>

definition readme_meta :: "string \<Rightarrow> IndexMeta" where
  "readme_meta version =
     \<lparr>schema_version = version, ark_version = ''0.1.0'',
      generated_at = ''2024-01-01T00:00:07.000Z'', repo_root = ''/repo'', git_commit = None,
      status = ''success'',
      stats = \<lparr>total_files = 1, indexed_files = 1, skipped_files = 0, total_symbols = 0,
                total_tests = 0, index_time_ms = 7\<rparr>,
      config = \<lparr>include_globs = [''**/*''], exclude_globs = [], max_file_kb = 256,
                 respect_gitignore = True, adapters_used = []\<rparr>,
      warnings = []\<rparr>"










text \<open>An empty disk, every call allowed, and serializers that only name the artifact.\<close>

definition empty_disk :: Disk where
  "empty_disk = \<lparr>dk_files = (\<lambda>p. None), dk_trace = []\<rparr>"

definition name_serializers :: "unit Serializers" where
  "name_serializers =
     \<lparr>ser_meta = (\<lambda>m. ''{meta}''), ser_repo_map = (\<lambda>r. ''{repo_map}''),
      ser_test_map = (\<lambda>t. ''{test_map}''), ser_file_hashes = (\<lambda>h. ''{file_hashes}''),
      ser_symbol = (\<lambda>s. ''{'' @ symbol_id s @ ''}'')\<rparr>"

definition two_symbols :: "Symbol list" where
  "two_symbols =
     er_symbols (fst (extractSymbolsFromFile a_ts_fs no_baseline ''src/a.ts'' ''/repo/src/a.ts'' [] {}))"

text \<open>
  A module \<open>pkg\<close> with five code files in \<open>pkg/foo\<close> and five more in \<open>pkg/foo/bar\<close>;
  and a module \<open>app\<close> with fifteen code files in \<open>app/components\<close> and six more in
  \<open>app/components/ui\<close>.
\<close>

definition source_file :: "string \<Rightarrow> DiscoveredFile" where
  "source_file p = \<lparr>path = p, absolutePath = ''/repo/'' @ p, fsize = 100,
                     mtime = ''2024-01-01T00:00:00.000Z''\<rparr>"

definition pkg_files :: "DiscoveredFile list" where
  "pkg_files =
     map source_file
       [''pkg/foo/bar/a.ts'', ''pkg/foo/bar/b.ts'', ''pkg/foo/bar/c.ts'', ''pkg/foo/bar/d.ts'',
        ''pkg/foo/bar/e.ts'',
        ''pkg/foo/f.ts'', ''pkg/foo/g.ts'', ''pkg/foo/h.ts'', ''pkg/foo/i.ts'', ''pkg/foo/j.ts'']"

definition app_files :: "DiscoveredFile list" where
  "app_files =
     map source_file
       (map (\<lambda>n. ''app/components/ui/'' @ n @ ''.ts'') [''a'', ''b'', ''c'', ''d'', ''e'', ''f''] @
        map (\<lambda>n. ''app/components/'' @ n @ ''.ts'')
          [''a'', ''b'', ''c'', ''d'', ''e'', ''f'', ''g'', ''h'', ''i'', ''j'', ''k'', ''l'', ''m'',
           ''n'', ''o''])"

definition subdir_view :: "SubDirectory \<Rightarrow> string \<times> nat" where
  "subdir_view s = (sd_path s, codeFileCount s)"

section \<open>Test tiers\<close>

lemma prefix_map_lower:
  "prefix kw s \<Longrightarrow> map lower_char kw = kw \<Longrightarrow> prefix kw (map lower_char s)"
  by (metis map_mono_prefix)

lemma str_includes_lower:
  "str_includes s kw \<Longrightarrow> map lower_char kw = kw \<Longrightarrow> str_includes (toLowerCase s) kw"
proof (induction s)
  case Nil
  then show ?case by (simp add: toLowerCase_def)
next
  case (Cons c cs)
  from Cons.prems(1) have "prefix kw (c # cs) \<or> str_includes cs kw" by simp
  then show ?case
  proof
    assume "prefix kw (c # cs)"
    then have "prefix kw (map lower_char (c # cs))"
      using Cons.prems(2) by (rule prefix_map_lower)
    then show ?thesis by (simp add: toLowerCase_def)
  next
    assume "str_includes cs kw"
    then have "str_includes (toLowerCase cs) kw" using Cons by simp
    then show ?thesis by (simp add: toLowerCase_def)
  qed
qed

lemma kw_lower:
  "map lower_char ''integration'' = ''integration''"
  "map lower_char ''e2e'' = ''e2e''"
  by (simp_all add: lower_char_def)

lemma inc_integration:
  "str_includes s ''integration'' \<Longrightarrow> str_includes (toLowerCase s) ''integration''"
  by (erule str_includes_lower) (rule kw_lower)

lemma inc_e2e: "str_includes s ''e2e'' \<Longrightarrow> str_includes (toLowerCase s) ''e2e''"
  by (erule str_includes_lower) (rule kw_lower)

text \<open>
  The two places where the code leaves the tier rule as the specification words it: an
  upper-case keyword still counts (the code lower-cases first), and \<open>perf\<close> in the path
  alone does not make a test slow (only the name is tested for it).
\<close>

lemma tier_upper_case_path:
  "determineTestTier ''E2E/a.test.ts'' None = Integration \<and>
   spec_tier ''E2E/a.test.ts'' None = Fast"
  by code_simp

lemma tier_perf_in_path:
  "determineTestTier ''perf/a.test.ts'' None = Fast \<and>
   spec_tier ''perf/a.test.ts'' None = Slow"
  by code_simp

text \<open>
  C7, as stated, at a concrete input: for the path \<open>E2E/a.test.ts\<close> without a test name
  the tier the code returns differs from the tier the specification's wording gives.
\<close>

theorem determineTestTier_counterexample:
  "determineTestTier ''E2E/a.test.ts'' None \<noteq> spec_tier ''E2E/a.test.ts'' None"
  by code_simp

text \<open>
  C7, amended. With \<open>lp\<close> and \<open>ln\<close> the lower-cased path and name:
  the tier is \<open>integration\<close> when the path or the name contains \<open>integration\<close> or
  \<open>e2e\<close> as written, and more generally when \<open>lp\<close> or \<open>ln\<close> does; otherwise it is
  \<open>slow\<close> when \<open>lp\<close> or \<open>ln\<close> contains \<open>slow\<close> or \<open>benchmark\<close> or \<open>ln\<close>
  contains \<open>perf\<close>; otherwise it is \<open>fast\<close>, as far as \<open>lp\<close> does not contain
  \<open>perf\<close>. Nothing is said about a path that contains \<open>perf\<close> when no other keyword
  applies.
\<close>

theorem determineTestTier_cases:
  fixes filePath :: string and testName :: "string option"
  defines "nm \<equiv> (case testName of None \<Rightarrow> [] | Some n \<Rightarrow> n)"
  defines "lp \<equiv> toLowerCase filePath" and "ln \<equiv> toLowerCase nm"
  defines "integ \<equiv> str_includes lp ''integration'' \<or> str_includes lp ''e2e'' \<or>
                     str_includes ln ''integration'' \<or> str_includes ln ''e2e''"
  defines "slowish \<equiv> str_includes lp ''slow'' \<or> str_includes lp ''benchmark'' \<or>
                     str_includes ln ''slow'' \<or> str_includes ln ''benchmark'' \<or>
                     str_includes ln ''perf''"
  shows "(str_includes filePath ''integration'' \<or> str_includes filePath ''e2e'' \<or>
          str_includes nm ''integration'' \<or> str_includes nm ''e2e''
            \<longrightarrow> determineTestTier filePath testName = Integration)
       \<and> (integ \<longrightarrow> determineTestTier filePath testName = Integration)
       \<and> (\<not> integ \<and> slowish \<longrightarrow> determineTestTier filePath testName = Slow)
       \<and> (\<not> integ \<and> \<not> slowish \<and> \<not> str_includes lp ''perf''
            \<longrightarrow> determineTestTier filePath testName = Fast)"
proof -
  have lit_ci: "str_includes filePath ''integration'' \<or> str_includes filePath ''e2e'' \<or>
          str_includes nm ''integration'' \<or> str_includes nm ''e2e'' \<Longrightarrow> integ"
    unfolding integ_def lp_def ln_def
    using inc_integration inc_e2e by blast
  have a: "integ \<Longrightarrow> determineTestTier filePath testName = Integration"
    unfolding integ_def lp_def ln_def nm_def determineTestTier_def Let_def by simp
  have b: "\<not> integ \<Longrightarrow> slowish \<Longrightarrow> determineTestTier filePath testName = Slow"
    unfolding integ_def slowish_def lp_def ln_def nm_def determineTestTier_def Let_def by simp
  have c: "\<not> integ \<Longrightarrow> \<not> slowish \<Longrightarrow> determineTestTier filePath testName = Fast"
    unfolding integ_def slowish_def lp_def ln_def nm_def determineTestTier_def Let_def by simp
  show ?thesis using lit_ci a b c by blast
qed

theorem determineTestTier_cases_witness:
  "determineTestTier ''tests/integration/db.test.ts'' (Some ''reads'') = Integration \<and>
   determineTestTier ''src/a.test.ts'' (Some ''Perf of sort'') = Slow \<and>
   determineTestTier ''src/a.test.ts'' (Some ''adds'') = Fast"
proof -
  have h1: "str_includes ''tests/integration/db.test.ts'' ''integration''"
    by code_simp
  have h2: "\<not> (str_includes (toLowerCase ''src/a.test.ts'') ''integration'' \<or>
                str_includes (toLowerCase ''src/a.test.ts'') ''e2e'' \<or>
                str_includes (toLowerCase ''Perf of sort'') ''integration'' \<or>
                str_includes (toLowerCase ''Perf of sort'') ''e2e'') \<and>
            (str_includes (toLowerCase ''src/a.test.ts'') ''slow'' \<or>
             str_includes (toLowerCase ''src/a.test.ts'') ''benchmark'' \<or>
             str_includes (toLowerCase ''Perf of sort'') ''slow'' \<or>
             str_includes (toLowerCase ''Perf of sort'') ''benchmark'' \<or>
             str_includes (toLowerCase ''Perf of sort'') ''perf'')"
    by code_simp
  have h3: "\<not> (str_includes (toLowerCase ''src/a.test.ts'') ''integration'' \<or>
                str_includes (toLowerCase ''src/a.test.ts'') ''e2e'' \<or>
                str_includes (toLowerCase ''adds'') ''integration'' \<or>
                str_includes (toLowerCase ''adds'') ''e2e'') \<and>
            \<not> (str_includes (toLowerCase ''src/a.test.ts'') ''slow'' \<or>
             str_includes (toLowerCase ''src/a.test.ts'') ''benchmark'' \<or>
             str_includes (toLowerCase ''adds'') ''slow'' \<or>
             str_includes (toLowerCase ''adds'') ''benchmark'' \<or>
             str_includes (toLowerCase ''adds'') ''perf'') \<and>
            \<not> str_includes (toLowerCase ''src/a.test.ts'') ''perf''"
    by code_simp
  have "determineTestTier ''tests/integration/db.test.ts'' (Some ''reads'') = Integration"
    using determineTestTier_cases [of "''tests/integration/db.test.ts''" "Some ''reads''"] h1
    by simp
  moreover have "determineTestTier ''src/a.test.ts'' (Some ''Perf of sort'') = Slow"
    using determineTestTier_cases [of "''src/a.test.ts''" "Some ''Perf of sort''"] h2
    by simp
  moreover have "determineTestTier ''src/a.test.ts'' (Some ''adds'') = Fast"
    using determineTestTier_cases [of "''src/a.test.ts''" "Some ''adds''"] h3
    by simp
  ultimately show ?thesis by simp
qed


section \<open>Identifiers of named tests\<close>

lemma generateTestId_named:
  "n \<noteq> [] \<Longrightarrow> generateTestId f (Some n) l c = f @ ''::'' @ n"
  by (simp add: generateTestId_def)

text \<open>Every parser keeps a match only when its name group is a non-empty string.\<close>

lemma parseJestLines_truthy: "list_all (\<lambda>t. truthy_group (pt_name t)) (parseJestLines i ls)"
  by (induction ls arbitrary: i) (simp_all add: Let_def)

lemma parsePrefixedLines_truthy:
  "list_all (\<lambda>t. truthy_group (pt_name t)) (parsePrefixedLines kw pre i ls)"
  by (induction ls arbitrary: i) (simp_all add: Let_def)

lemma parseRustLines_truthy:
  "list_all (\<lambda>t. truthy_group (pt_name t)) (parseRustLines b a i ls)"
  by (induction b a i ls rule: parseRustLines.induct) (simp_all add: Let_def)

lemma parseTestNames_truthy:
  "list_all (\<lambda>t. truthy_group (pt_name t)) (parseTestNames content framework)"
  by (simp add: parseTestNames_def parseJestTests_def parsePytestTests_def parseGoTests_def
      parseRustTests_def parseJestLines_truthy parsePrefixedLines_truthy parseRustLines_truthy)

lemma parseTestsFromFile_truthy:
  "list_all (\<lambda>t. truthy_group (pt_name t)) (parseTestsFromFile readFile p a fw)"
  by (simp add: parseTestsFromFile_def parseTestNames_truthy split: option.split)

lemma entriesOfParsed_named:
  "e \<in> set (entriesOfParsed p pkg c ts) \<Longrightarrow> list_all (\<lambda>t. truthy_group (pt_name t)) ts \<Longrightarrow>
     te_file e = p \<and> (\<exists>n. te_name e = Some n \<and> n \<noteq> [] \<and> test_id e = p @ ''::'' @ n)"
proof (induction ts arbitrary: c)
  case Nil
  then show ?case by simp
next
  case (Cons t ts)
  from Cons.prems(2) obtain n where n: "pt_name t = Some n" "n \<noteq> []"
    by (auto simp: truthy_group_def split: option.splits)
  show ?case
  proof (cases "e \<in> set (entriesOfParsed p pkg c ts)")
    case True
    then show ?thesis using Cons by simp
  next
    case False
    with Cons.prems(1) n have
      "e = \<lparr>test_id = generateTestId p (Some n) (Some (pt_line t)) c, te_file = p,
            te_name = Some n, te_tags = extractTestTags p (Some n),
            te_tier = determineTestTier p (Some n), files_touched = [],
            packages = packagesOf pkg\<rparr>"
      by (simp add: Let_def truthy_group_def)
    then show ?thesis using n by (simp add: generateTestId_named)
  qed
qed

lemma entriesOfFile_named:
  assumes "e \<in> set (entriesOfFile readFile f)"
  shows "te_file e = path f"
    and "te_name e = Some n \<Longrightarrow> n \<noteq> [] \<and> test_id e = path f @ ''::'' @ n"
proof -
  let ?ps = "parseTestsFromFile readFile (path f) (absolutePath f) (detectTestFramework (path f))"
  show "te_file e = path f"
  proof (cases "?ps = []")
    case True
    then show ?thesis using assms by (simp add: entriesOfFile_def Let_def)
  next
    case False
    then have "e \<in> set (entriesOfParsed (path f) (extractTestPackage (path f)) 0 ?ps)"
      using assms by (simp add: entriesOfFile_def Let_def)
    then show ?thesis using entriesOfParsed_named parseTestsFromFile_truthy by blast
  qed
  show "te_name e = Some n \<Longrightarrow> n \<noteq> [] \<and> test_id e = path f @ ''::'' @ n"
  proof (cases "?ps = []")
    case True
    assume "te_name e = Some n"
    then show ?thesis using True assms by (simp add: entriesOfFile_def Let_def)
  next
    case False
    assume nm: "te_name e = Some n"
    from False have "e \<in> set (entriesOfParsed (path f) (extractTestPackage (path f)) 0 ?ps)"
      using assms by (simp add: entriesOfFile_def Let_def)
    then have "\<exists>m. te_name e = Some m \<and> m \<noteq> [] \<and> test_id e = path f @ ''::'' @ m"
      using entriesOfParsed_named parseTestsFromFile_truthy by blast
    then show ?thesis using nm by auto
  qed
qed

text \<open>
  C9. Two entries of \<open>buildTestEntries\<close> for the same file that carry the same name have
  the same \<open>test_id\<close>, namely \<open>file::name\<close>; the identifier of that name does not depend
  on the line or on the counter of unnamed tests, and no suffix is added to tell the two
  apart. The file system and the list of test files are arbitrary.
\<close>

theorem named_tests_share_test_id:
  assumes "e1 \<in> set (buildTestEntries readFile testFiles)"
      and "e2 \<in> set (buildTestEntries readFile testFiles)"
      and "te_file e1 = te_file e2"
      and "te_name e1 = Some n" and "te_name e2 = Some n"
  shows "test_id e1 = test_id e2 \<and> test_id e1 = te_file e1 @ ''::'' @ n \<and>
         (\<forall>line counter. generateTestId (te_file e1) (Some n) line counter = test_id e1)"
proof -
  from assms(1) obtain f1 where f1: "f1 \<in> set testFiles" "e1 \<in> set (entriesOfFile readFile f1)"
    by (auto simp: buildTestEntries_def)
  from assms(2) obtain f2 where f2: "f2 \<in> set testFiles" "e2 \<in> set (entriesOfFile readFile f2)"
    by (auto simp: buildTestEntries_def)
  have a: "te_file e1 = path f1" "n \<noteq> []" "test_id e1 = path f1 @ ''::'' @ n"
    using entriesOfFile_named[OF f1(2)] assms(4) by auto
  have b: "te_file e2 = path f2" "test_id e2 = path f2 @ ''::'' @ n"
    using entriesOfFile_named[OF f2(2)] assms(5) by auto
  show ?thesis using a b assms(3) by (simp add: generateTestId_named)
qed

text \<open>
  A file with \<open>it('adds', f)\<close> on line 1 and \<open>it('adds', g)\<close> on line 2: two entries,
  one identifier.
\<close>

lemma two_adds_entries:
  "buildTestEntries two_adds_reader [a_test_ts] =
     [\<lparr>test_id = ''src/a.test.ts::adds'', te_file = ''src/a.test.ts'', te_name = Some ''adds'',
       te_tags = [], te_tier = Fast, files_touched = [], packages = []\<rparr>,
      \<lparr>test_id = ''src/a.test.ts::adds'', te_file = ''src/a.test.ts'', te_name = Some ''adds'',
       te_tags = [], te_tier = Fast, files_touched = [], packages = []\<rparr>]"
  by code_simp

theorem named_tests_share_test_id_witness:
  "length (buildTestEntries two_adds_reader [a_test_ts]) = 2 \<and>
   te_name (buildTestEntries two_adds_reader [a_test_ts] ! 0) = Some ''adds'' \<and>
   te_name (buildTestEntries two_adds_reader [a_test_ts] ! 1) = Some ''adds'' \<and>
   test_id (buildTestEntries two_adds_reader [a_test_ts] ! 0) =
     test_id (buildTestEntries two_adds_reader [a_test_ts] ! 1) \<and>
   test_id (buildTestEntries two_adds_reader [a_test_ts] ! 0) = ''src/a.test.ts::adds''"
proof -
  let ?es = "buildTestEntries two_adds_reader [a_test_ts]"
  have len: "length ?es = 2" by (simp add: two_adds_entries)
  have m0: "?es ! 0 \<in> set ?es" and m1: "?es ! 1 \<in> set ?es"
    using len by simp_all
  have f: "te_file (?es ! 0) = te_file (?es ! 1)" by (simp add: two_adds_entries)
  have n0: "te_name (?es ! 0) = Some ''adds''" and n1: "te_name (?es ! 1) = Some ''adds''"
    by (simp_all add: two_adds_entries)
  have f0: "te_file (?es ! 0) = ''src/a.test.ts''" by (simp add: two_adds_entries)
  note shared = named_tests_share_test_id [OF m0 m1 f n0 n1]
  from shared have eq: "test_id (?es ! 0) = test_id (?es ! 1)" by (rule conjunct1)
  from shared have "test_id (?es ! 0) = te_file (?es ! 0) @ ''::'' @ ''adds''" by blast
  then have idv: "test_id (?es ! 0) = ''src/a.test.ts::adds''" by (simp add: f0)
  show ?thesis using len n0 n1 eq idv by blast
qed

section \<open>The TypeScript/JavaScript extractor\<close>

lemma first_pattern_kind:
  "first_pattern ps l = Some (name, kind) \<Longrightarrow> kind \<in> snd ` set ps \<and> name \<noteq> []"
  by (induction ps l rule: first_pattern.induct)
     (auto split: option.splits list.splits if_splits)

lemma first_pattern_first_wins:
  "list_all (\<lambda>q. match_m (fst q) True l = None) before \<Longrightarrow>
   match_m p True l = Some (name # caps) \<Longrightarrow> name \<noteq> [] \<Longrightarrow>
   first_pattern (before @ (p, kind) # rest) l = Some (name, kind)"
  by (induction before) auto

lemma symbolAt_shape:
  "symbolAt lines i l = [] \<or>
   (\<exists>s. symbolAt lines i l = [s] \<and> start_line s = i + 1 \<and> as_visibility s = Some Export)"
  by (auto simp: symbolAt_def start_line_def split: option.splits)

lemma tsLoop_lines:
  "sorted_wrt (<) (map start_line (tsLoop lines i ls)) \<and>
   list_all (\<lambda>s. i < start_line s \<and> start_line s \<le> i + length ls \<and>
                  as_visibility s = Some Export) (tsLoop lines i ls)"
proof (induction ls arbitrary: i)
  case Nil
  then show ?case by simp
next
  case (Cons l ls)
  have ih: "sorted_wrt (<) (map start_line (tsLoop lines (i + 1) ls))"
    "list_all (\<lambda>s. i + 1 < start_line s \<and> start_line s \<le> i + 1 + length ls \<and>
                  as_visibility s = Some Export) (tsLoop lines (i + 1) ls)"
    using Cons.IH[of "i + 1"] by auto
  from symbolAt_shape[of lines i l] show ?case
  proof
    assume "symbolAt lines i l = []"
    then show ?thesis using ih by (auto simp: list_all_iff)
  next
    assume "\<exists>s. symbolAt lines i l = [s] \<and> start_line s = i + 1 \<and> as_visibility s = Some Export"
    then obtain s where s: "symbolAt lines i l = [s]" "start_line s = i + 1"
      "as_visibility s = Some Export" by blast
    then show ?thesis using ih by (auto simp: list_all_iff)
  qed
qed

lemma sorted_filter_le1:
  "sorted_wrt (<) (map f xs) \<Longrightarrow> length (filter (\<lambda>x. f x = (n::nat)) xs) \<le> 1"
proof (induction xs)
  case Nil
  then show ?case by simp
next
  case (Cons x xs)
  then have ih: "length (filter (\<lambda>x. f x = n) xs) \<le> 1" by simp
  show ?case
  proof (cases "f x = n")
    case True
    from Cons.prems have "\<forall>y\<in>set xs. f x < f y" by simp
    then have "filter (\<lambda>x. f x = n) xs = []" using True by (auto simp: filter_empty_conv)
    then show ?thesis using True by simp
  next
    case False
    then show ?thesis using ih by simp
  qed
qed

text \<open>
  C10. For every content: no two emitted symbols start on the same line (for every line
  number at most one symbol starts there, and there are at most as many symbols as lines);
  every emitted symbol has visibility \<open>export\<close>; a line gives at most one symbol, and it
  comes from the first pattern of the list that matches, whatever the later patterns
  would do.
\<close>

theorem ts_one_symbol_per_line:
  "(\<forall>n. length (filter (\<lambda>s. line (span_start (as_span s)) = n)
                       (extractTypescriptSymbols content filePath)) \<le> 1) \<and>
   length (extractTypescriptSymbols content filePath) \<le> length (split_on CHR 0x0A content) \<and>
   list_all (\<lambda>s. as_visibility s = Some Export) (extractTypescriptSymbols content filePath) \<and>
   (\<forall>lines i l. length (symbolAt lines i l) \<le> 1) \<and>
   (\<forall>before p kind rest l name caps.
      list_all (\<lambda>q. match_m (fst q) True l = None) before \<and>
      match_m p True l = Some (name # caps) \<and> name \<noteq> [] \<longrightarrow>
      first_pattern (before @ (p, kind) # rest) l = Some (name, kind))"
proof -
  let ?ls = "split_on CHR 0x0A content"
  let ?syms = "extractTypescriptSymbols content filePath"
  have eq: "?syms = tsLoop ?ls 0 ?ls" by (simp add: extractTypescriptSymbols_def Let_def)
  note tl = tsLoop_lines[of ?ls 0 ?ls]
  have a: "\<forall>n. length (filter (\<lambda>s. line (span_start (as_span s)) = n) ?syms) \<le> 1"
    using tl sorted_filter_le1[of start_line "tsLoop ?ls 0 ?ls"] unfolding eq start_line_def by blast
  have d: "distinct (map start_line ?syms)"
    using tl unfolding eq by (simp add: strict_sorted_iff)
  have "start_line ` set ?syms \<subseteq> {1..length ?ls}"
    using tl unfolding eq by (auto simp: list_all_iff)
  then have "card (start_line ` set ?syms) \<le> length ?ls"
    by (metis card_atLeastAtMost card_mono diff_Suc_1 finite_atLeastAtMost)
  then have b: "length ?syms \<le> length ?ls"
    using d by (metis distinct_card length_map set_map)
  have c: "list_all (\<lambda>s. as_visibility s = Some Export) ?syms"
    using tl unfolding eq by (auto simp: list_all_iff)
  have e: "\<forall>lines i l. length (symbolAt lines i l) \<le> 1"
    using symbolAt_shape by (metis One_nat_def le_numeral_extra(4) length_Cons list.size(3) zero_le)
  show ?thesis using a b c e first_pattern_first_wins by blast
qed

text \<open>
  The line \<open>export function f() {}\<close> matches the first two patterns; the symbol is the
  first pattern's, and the file of the scenario gives one symbol on line 1 and one on
  line 3.
\<close>

theorem ts_one_symbol_per_line_witness:
  "first_pattern ts_patterns ''export function f() {}'' = Some (''f'', KFunction) \<and>
   length (filter (\<lambda>s. line (span_start (as_span s)) = 3)
             (extractTypescriptSymbols a_ts_content ''src/a.ts'')) \<le> 1 \<and>
   list_all (\<lambda>s. as_visibility s = Some Export) (extractTypescriptSymbols a_ts_content ''src/a.ts'')"
proof -
  note t = ts_one_symbol_per_line [of a_ts_content "''src/a.ts''"]
  have m: "list_all (\<lambda>q. match_m (fst q) True ''export function f() {}'' = None) [] \<and>
           match_m (fst (hd ts_patterns)) True ''export function f() {}'' = Some [''f''] \<and>
           ''f'' \<noteq> []"
    by code_simp
  have split: "ts_patterns = [] @ (fst (hd ts_patterns), KFunction) # tl ts_patterns"
    by (simp add: ts_patterns_def)
  from t have "first_pattern ([] @ (fst (hd ts_patterns), KFunction) # tl ts_patterns)
                  ''export function f() {}'' = Some (''f'', KFunction)"
    using m by blast
  then have fp: "first_pattern ts_patterns ''export function f() {}'' = Some (''f'', KFunction)"
    by (metis split)
  from t have l3: "length (filter (\<lambda>s. line (span_start (as_span s)) = 3)
             (extractTypescriptSymbols a_ts_content ''src/a.ts'')) \<le> 1" by blast
  from t have ex: "list_all (\<lambda>s. as_visibility s = Some Export)
             (extractTypescriptSymbols a_ts_content ''src/a.ts'')" by blast
  show ?thesis using fp l3 ex by blast
qed


section \<open>The scenario of the exported function, the class and its method\<close>

lemma symbolAt_kind:
  "s \<in> set (symbolAt lines i l) \<Longrightarrow> as_kind s \<in> snd ` set ts_patterns"
proof -
  assume a: "s \<in> set (symbolAt lines i l)"
  then obtain name kind where fp: "first_pattern ts_patterns l = Some (name, kind)"
    by (cases "first_pattern ts_patterns l") (auto simp: symbolAt_def)
  with a have "as_kind s = kind" by (simp add: symbolAt_def)
  then show ?thesis using first_pattern_kind[OF fp] by simp
qed

lemma tsLoop_kind:
  "s \<in> set (tsLoop lines i ls) \<Longrightarrow> as_kind s \<in> snd ` set ts_patterns"
  by (induction ls arbitrary: i) (auto dest: symbolAt_kind)

lemma ts_never_method: "list_all (\<lambda>s. as_kind s \<noteq> KMethod) (extractTypescriptSymbols content filePath)"
proof -
  have "KMethod \<notin> snd ` set ts_patterns" by (simp add: ts_patterns_def)
  then show ?thesis
    unfolding list_all_iff extractTypescriptSymbols_def Let_def
    using tsLoop_kind by metis
qed

text \<open>
  C6, as stated, at the file of the scenario: extraction followed by identifier generation
  does not give the three symbols of the claim, and the method entry
  \<open>src/a.ts::C.f:L5\<close> is not among the symbols at all.
\<close>

theorem ts_scenario_counterexample:
  "map sym_view (er_symbols (fst (extractSymbolsFromFile a_ts_fs no_baseline
         ''src/a.ts'' ''/repo/src/a.ts'' [] {})))
     \<noteq> [(''src/a.ts::f'', KFunction, 1), (''src/a.ts::C'', KClass, 3),
         (''src/a.ts::C.f:L5'', KMethod, 5)] \<and>
   (''src/a.ts::C.f:L5'', KMethod, 5) \<notin> set (map sym_view (er_symbols (fst
       (extractSymbolsFromFile a_ts_fs no_baseline ''src/a.ts'' ''/repo/src/a.ts'' [] {}))))"
  by code_simp

text \<open>
  C6, amended. For that file the symbols are exactly the function \<open>src/a.ts::f\<close> on
  line 1 and the class \<open>src/a.ts::C\<close> on line 3; and for no content does the
  TypeScript/JavaScript extractor emit a symbol of kind \<open>method\<close>.
\<close>

theorem ts_scenario_symbols:
  "map sym_view (er_symbols (fst (extractSymbolsFromFile a_ts_fs no_baseline
         ''src/a.ts'' ''/repo/src/a.ts'' [] {})))
     = [(''src/a.ts::f'', KFunction, 1), (''src/a.ts::C'', KClass, 3)] \<and>
   list_all (\<lambda>s. as_kind s \<noteq> KMethod) (extractTypescriptSymbols content filePath)"
proof -
  have "map sym_view (er_symbols (fst (extractSymbolsFromFile a_ts_fs no_baseline
         ''src/a.ts'' ''/repo/src/a.ts'' [] {})))
     = [(''src/a.ts::f'', KFunction, 1), (''src/a.ts::C'', KClass, 3)]"
    by code_simp
  then show ?thesis using ts_never_method by blast
qed

theorem ts_scenario_symbols_witness:
  "length (er_symbols (fst (extractSymbolsFromFile a_ts_fs no_baseline
         ''src/a.ts'' ''/repo/src/a.ts'' [] {}))) = 2 \<and>
   list_all (\<lambda>s. as_kind s \<noteq> KMethod) (extractTypescriptSymbols a_ts_content ''src/a.ts'')"
proof -
  from ts_scenario_symbols [of a_ts_content "''src/a.ts''"]
  have v: "map sym_view (er_symbols (fst (extractSymbolsFromFile a_ts_fs no_baseline
         ''src/a.ts'' ''/repo/src/a.ts'' [] {})))
     = [(''src/a.ts::f'', KFunction, 1), (''src/a.ts::C'', KClass, 3)]"
    and k: "list_all (\<lambda>s. as_kind s \<noteq> KMethod) (extractTypescriptSymbols a_ts_content ''src/a.ts'')"
    by blast+
  from v have "length (map sym_view (er_symbols (fst (extractSymbolsFromFile a_ts_fs no_baseline
         ''src/a.ts'' ''/repo/src/a.ts'' [] {})))) = 2" by simp
  then show ?thesis using k by simp
qed

section \<open>Uniqueness of symbol identifiers\<close>

text \<open>
  On a collision \<open>generateSymbolId\<close> appends \<open>:L\<close> and the line, and returns that
  string without looking it up: a third symbol of the same name on the same line gets the
  identifier of the second.
\<close>

lemma generateSymbolId_fallback_unchecked:
  "fst (generateSymbolId ''dist/min.js'' ''a'' 1 {''dist/min.js::a'', ''dist/min.js::a:L1''} None)
     = ''dist/min.js::a:L1''"
  by code_simp

text \<open>
  C1 at a concrete build: a first build (empty artifact directory, default options) of a
  repository whose only file \<open>dist/min.js\<close> is read by an available adapter that reports
  three functions \<open>a\<close> on line 1. The build succeeds and the symbol stream it writes
  carries the identifier \<open>dist/min.js::a:L1\<close> twice.
\<close>

theorem duplicate_symbol_id_in_build:
  "symbolIdsOf (buildIndex (default_options [ast_adapter])
                  (one_file_world min_js min_js_content) empty_dir)
     = Some [''dist/min.js::a'', ''dist/min.js::a:L1'', ''dist/min.js::a:L1''] \<and>
   \<not> distinct [''dist/min.js::a'', ''dist/min.js::a:L1'', ''dist/min.js::a:L1'']"
  by code_simp


section \<open>Two runs without a change in between\<close>

text \<open>
  The configuration check compares the names of the configured adapters with the names of
  the adapters the previous run used. A configured adapter that was not used (here: not
  available) makes the check report a change although the options are the same.
\<close>

lemma unused_adapter_reads_as_config_change:
  "hasConfigChanged
     \<lparr>includeGlobs = [''**/*''], excludeGlobs = [], maxFileKb = 256, respectGitignore = True,
      cc_adapters = [''lsp'']\<rparr>
     (Some \<lparr>schema_version = ''1.0.0'', ark_version = ''0.1.0'', generated_at = [],
            repo_root = ''/repo'', git_commit = None, status = ''success'',
            stats = \<lparr>total_files = 1, indexed_files = 1, skipped_files = 0, total_symbols = 0,
                      total_tests = 0, index_time_ms = 7\<rparr>,
            config = \<lparr>include_globs = [''**/*''], exclude_globs = [], max_file_kb = 256,
                       respect_gitignore = True, adapters_used = []\<rparr>,
            warnings = []\<rparr>)"
  by code_simp

text \<open>
  C4 at a concrete repository: one file \<open>README.md\<close>, default options with one
  configured adapter that is not available, two runs from an empty artifact directory
  with the same file system. The second run reports \<open>files_changed = 1\<close>, not 0. With
  no adapter configured the same two runs give 0.
\<close>

theorem second_run_reindexes_with_unused_adapter:
  "filesChangedOf (secondRun (default_options [lsp_adapter])
                     (one_file_world readme_md ''# repo'') empty_dir) = Some 1 \<and>
   filesChangedOf (secondRun (default_options [])
                     (one_file_world readme_md ''# repo'') empty_dir) = Some 0"
  by code_simp

section \<open>Change analysis\<close>

lemma analyzeFiles_nth:
  "analyzeFiles fs prev files = Inr cs \<Longrightarrow>
     length cs = length files \<and> (\<forall>i<length files. analyzeFile fs prev (files ! i) = Inr (cs ! i))"
proof (induction files arbitrary: cs)
  case Nil
  then show ?case by simp
next
  case (Cons f files)
  from Cons.prems obtain c cs' where c: "analyzeFile fs prev f = Inr c"
    and cs': "analyzeFiles fs prev files = Inr cs'" and cs: "cs = c # cs'"
    by (auto split: sum.splits)
  from Cons.IH[OF cs'] have ih: "length cs' = length files"
    "\<forall>i<length files. analyzeFile fs prev (files ! i) = Inr (cs' ! i)" by auto
  show ?case
  proof (intro conjI allI impI)
    show "length cs = length (f # files)" using cs ih by simp
  next
    fix i assume "i < length (f # files)"
    then show "analyzeFile fs prev ((f # files) ! i) = Inr (cs ! i)"
      using c cs ih by (cases i) auto
  qed
qed

lemma analyzeFiles_returns:
  "\<forall>f\<in>set files. computeFileHash fs (absolutePath f) \<noteq> None \<Longrightarrow>
     \<exists>cs. analyzeFiles fs prev files = Inr cs"
proof (induction files)
  case Nil
  then show ?case by simp
next
  case (Cons f files)
  then obtain cs where cs: "analyzeFiles fs prev files = Inr cs" by auto
  from Cons.prems obtain h where h: "computeFileHash fs (absolutePath f) = Some h" by auto
  have "\<exists>c. analyzeFile fs prev f = Inr c"
    using h by (auto simp: analyzeFile_def split: option.splits QuickResult.splits)
  then show ?case using cs by auto
qed


lemma analyzeFile_known:
  assumes "map_of (fh_files prev) (path f) = Some previous"
      and "analyzeFile fs (Some prev) f = Inr (c, hashed)"
  shows "fc_path c = path f \<and>
     (case fs_stat fs (absolutePath f) of
        None \<Rightarrow> fc_status c = Changed \<and> fc_hash c = None \<and> hashed = []
      | Some (m, s) \<Rightarrow>
          if m = fhe_mtime previous \<and> s = fhe_size previous then
            fc_status c = Unchanged \<and> fc_hash c = Some (fhe_hash previous) \<and> hashed = []
          else
            hashed = [absolutePath f] \<and>
            (\<exists>h. computeFileHash fs (absolutePath f) = Some h \<and> fc_hash c = Some h \<and>
                 fc_status c = (if h = fhe_hash previous then Unchanged else Changed)))"
proof (cases "fs_stat fs (absolutePath f)")
  case None
  then have "quickChangeCheck fs (absolutePath f) (fhe_mtime previous) (fhe_size previous) = QError"
    by (simp add: quickChangeCheck_def)
  then show ?thesis using assms None by (auto simp: analyzeFile_def)
next
  case (Some st)
  obtain m s where st: "st = (m, s)" by (cases st)
  show ?thesis
  proof (cases "m = fhe_mtime previous \<and> s = fhe_size previous")
    case True
    then have "quickChangeCheck fs (absolutePath f) (fhe_mtime previous) (fhe_size previous) = QUnchanged"
      using Some st by (simp add: quickChangeCheck_def)
    then show ?thesis using assms Some st True by (auto simp: analyzeFile_def)
  next
    case False
    then have q: "quickChangeCheck fs (absolutePath f) (fhe_mtime previous) (fhe_size previous) = QMaybeChanged"
      using Some st by (auto simp: quickChangeCheck_def)
    show ?thesis
    proof (cases "computeFileHash fs (absolutePath f)")
      case None
      then show ?thesis using assms q by (auto simp: analyzeFile_def)
    next
      case (Some h)
      then have "c = \<lparr>fc_path = path f,
                       fc_status = (if h = fhe_hash previous then Unchanged else Changed),
                       fc_hash = Some h\<rparr>" and "hashed = [absolutePath f]"
        using assms q by (auto simp: analyzeFile_def)
      then show ?thesis using \<open>fs_stat fs (absolutePath f) = Some st\<close> st False Some by simp
    qed
  qed
qed

text \<open>
  C3. With a ledger \<open>prev\<close>: the analysis returns whenever every discovered file can
  be read; and whenever it returns, for every discovered file with a ledger entry
  \<open>previous\<close>: if \<open>stat\<close> fails the verdict is \<open>changed\<close> (no hash computed); if
  the current modification time and size both equal the stored ones the verdict is
  \<open>unchanged\<close> with the stored hash and \<open>computeFileHash\<close> is not called; otherwise
  \<open>computeFileHash\<close> is called once and the verdict is \<open>unchanged\<close> when the hash
  equals the stored hash and \<open>changed\<close> when it does not. So a file is \<open>unchanged\<close>
  without a hash computation exactly when both stored stats match. Every ledger key that
  is no discovered path has a \<open>deleted\<close> verdict.
\<close>

theorem analyzeChanges_verdicts:
  "((\<forall>f\<in>set files. computeFileHash fs (absolutePath f) \<noteq> None) \<longrightarrow>
      (\<exists>r. analyzeChanges fs files (Some prev) = Inr r)) \<and>
   (\<forall>changes calls. analyzeChanges fs files (Some prev) = Inr (changes, calls) \<longrightarrow>
      length calls = length files \<and> length files \<le> length changes \<and>
      (\<forall>i<length files. \<forall>previous.
          map_of (fh_files prev) (path (files ! i)) = Some previous \<longrightarrow>
            fc_path (changes ! i) = path (files ! i) \<and>
            (case fs_stat fs (absolutePath (files ! i)) of
               None \<Rightarrow>
                 fc_status (changes ! i) = Changed \<and> fc_hash (changes ! i) = None \<and>
                 calls ! i = []
             | Some (m, s) \<Rightarrow>
                 if m = fhe_mtime previous \<and> s = fhe_size previous then
                   fc_status (changes ! i) = Unchanged \<and>
                   fc_hash (changes ! i) = Some (fhe_hash previous) \<and> calls ! i = []
                 else
                   calls ! i = [absolutePath (files ! i)] \<and>
                   (\<exists>h. computeFileHash fs (absolutePath (files ! i)) = Some h \<and>
                        fc_hash (changes ! i) = Some h \<and>
                        fc_status (changes ! i) =
                          (if h = fhe_hash previous then Unchanged else Changed))) \<and>
            ((fc_status (changes ! i) = Unchanged \<and> calls ! i = []) \<longleftrightarrow>
             fs_stat fs (absolutePath (files ! i)) = Some (fhe_mtime previous, fhe_size previous))) \<and>
      (\<forall>p\<in>set (map fst (fh_files prev)). p \<notin> set (map path files) \<longrightarrow>
          \<lparr>fc_path = p, fc_status = Deleted, fc_hash = None\<rparr> \<in> set changes))"
proof (intro conjI allI impI ballI)
  assume "\<forall>f\<in>set files. computeFileHash fs (absolutePath f) \<noteq> None"
  then obtain cs where "analyzeFiles fs (Some prev) files = Inr cs"
    using analyzeFiles_returns by blast
  then show "\<exists>r. analyzeChanges fs files (Some prev) = Inr r"
    by (simp add: analyzeChanges_def)
next
  fix changes calls
  assume a: "analyzeChanges fs files (Some prev) = Inr (changes, calls)"
  then obtain cs where cs: "analyzeFiles fs (Some prev) files = Inr cs"
    and ch: "changes = map fst cs @ deletedChanges files (Some prev)"
    and ca: "calls = map snd cs"
    by (auto simp: analyzeChanges_def split: sum.splits)
  note nth = analyzeFiles_nth[OF cs]
  show "length calls = length files" using nth ca by simp
  show "length files \<le> length changes" using nth ch by simp
  {
    fix p assume "p \<in> set (map fst (fh_files prev))" "p \<notin> set (map path files)"
    then show "\<lparr>fc_path = p, fc_status = Deleted, fc_hash = None\<rparr> \<in> set changes"
      unfolding ch deletedChanges_def by auto
  }
  fix i previous
  assume i: "i < length files"
    and prev: "map_of (fh_files prev) (path (files ! i)) = Some previous"
  have ci: "changes ! i = fst (cs ! i)" using ch nth i by (simp add: nth_append)
  have hi: "calls ! i = snd (cs ! i)" using ca nth i by simp
  have "analyzeFile fs (Some prev) (files ! i) = Inr (changes ! i, calls ! i)"
    using nth i ci hi by simp
  note k = analyzeFile_known[OF prev this]
  show "fc_path (changes ! i) = path (files ! i)" using k by simp
  show "case fs_stat fs (absolutePath (files ! i)) of
               None \<Rightarrow>
                 fc_status (changes ! i) = Changed \<and> fc_hash (changes ! i) = None \<and>
                 calls ! i = []
             | Some (m, s) \<Rightarrow>
                 if m = fhe_mtime previous \<and> s = fhe_size previous then
                   fc_status (changes ! i) = Unchanged \<and>
                   fc_hash (changes ! i) = Some (fhe_hash previous) \<and> calls ! i = []
                 else
                   calls ! i = [absolutePath (files ! i)] \<and>
                   (\<exists>h. computeFileHash fs (absolutePath (files ! i)) = Some h \<and>
                        fc_hash (changes ! i) = Some h \<and>
                        fc_status (changes ! i) =
                          (if h = fhe_hash previous then Unchanged else Changed))"
    using k by simp
  show "(fc_status (changes ! i) = Unchanged \<and> calls ! i = []) \<longleftrightarrow>
             fs_stat fs (absolutePath (files ! i)) = Some (fhe_mtime previous, fhe_size previous)"
    using k by (cases "fs_stat fs (absolutePath (files ! i))") (auto split: if_splits)
qed


lemma ledger_analysis:
  "analyzeChanges ledger_fs ledger_files (Some ledger_prev)
     = Inr (ledger_changes, [[], [''/repo/b.ts''], []])"
  by code_simp

theorem analyzeChanges_verdicts_witness:
  "analyzeChanges ledger_fs ledger_files (Some ledger_prev)
     = Inr (ledger_changes, [[], [''/repo/b.ts''], []]) \<and>
   fc_status (ledger_changes ! 0) = Unchanged \<and>
   fc_status (ledger_changes ! 1) = Unchanged \<and>
   fc_hash (ledger_changes ! 1) = Some ''sha256:20'' \<and>
   fc_status (ledger_changes ! 2) = Changed \<and>
   \<lparr>fc_path = ''gone.ts'', fc_status = Deleted, fc_hash = None\<rparr> \<in> set ledger_changes"
proof -
  note t = analyzeChanges_verdicts [of ledger_files ledger_fs ledger_prev]
  let ?calls = "[[], [''/repo/b.ts''], []] :: string list list"
  have len: "length ledger_files = 3" by (simp add: ledger_files_def)
  have e0: "map_of (fh_files ledger_prev) (path (ledger_files ! 0))
              = Some \<lparr>fhe_hash = ''sha256:10'', fhe_mtime = ''2024-01-01T00:00:00.000Z'', fhe_size = 10\<rparr>"
    by (simp add: ledger_prev_def ledger_files_def)
  have e1: "map_of (fh_files ledger_prev) (path (ledger_files ! 1))
              = Some \<lparr>fhe_hash = ''sha256:20'', fhe_mtime = ''2024-02-02T00:00:00.000Z'', fhe_size = 20\<rparr>"
    by (simp add: ledger_prev_def ledger_files_def)
  have e2: "map_of (fh_files ledger_prev) (path (ledger_files ! 2))
              = Some \<lparr>fhe_hash = ''sha256:30'', fhe_mtime = ''2024-01-01T00:00:00.000Z'', fhe_size = 30\<rparr>"
    by (simp add: ledger_prev_def ledger_files_def)
  have s0: "fs_stat ledger_fs (absolutePath (ledger_files ! 0)) = Some (''2024-01-01T00:00:00.000Z'', 10)"
    by (simp add: ledger_fs_def ledger_files_def)
  have s1: "fs_stat ledger_fs (absolutePath (ledger_files ! 1)) = Some (''2024-03-03T00:00:00.000Z'', 20)"
    by (simp add: ledger_fs_def ledger_files_def)
  have s2: "fs_stat ledger_fs (absolutePath (ledger_files ! 2)) = None"
    by (simp add: ledger_fs_def ledger_files_def)
  have h1: "computeFileHash ledger_fs (absolutePath (ledger_files ! 1)) = Some ''sha256:20''"
    by code_simp
  have gone: "''gone.ts'' \<in> set (map fst (fh_files ledger_prev)) \<and>
              ''gone.ts'' \<notin> set (map path ledger_files)"
    by (simp add: ledger_prev_def ledger_files_def)
  note t2 = t [THEN conjunct2, rule_format, OF ledger_analysis]
  note per_file = t2 [THEN conjunct2, THEN conjunct2, THEN conjunct1, rule_format]
  note deleted = t2 [THEN conjunct2, THEN conjunct2, THEN conjunct2, rule_format]
  have i0: "(0::nat) < length ledger_files" and i1: "(1::nat) < length ledger_files"
    and i2: "(2::nat) < length ledger_files" using len by simp_all
  from per_file [OF i0 e0, THEN conjunct2, THEN conjunct1] s0
  have r0: "fc_status (ledger_changes ! 0) = Unchanged" by simp
  from per_file [OF i1 e1, THEN conjunct2, THEN conjunct1] s1 h1
  have r1: "fc_status (ledger_changes ! 1) = Unchanged \<and> fc_hash (ledger_changes ! 1) = Some ''sha256:20''"
    by simp
  from per_file [OF i2 e2, THEN conjunct2, THEN conjunct1] s2
  have r2: "fc_status (ledger_changes ! 2) = Changed" by simp
  from deleted [of "''gone.ts''"] gone
  have r3: "\<lparr>fc_path = ''gone.ts'', fc_status = Deleted, fc_hash = None\<rparr> \<in> set ledger_changes"
    by blast
  show ?thesis using ledger_analysis r0 r1 r2 r3 by (intro conjI) simp_all
qed



section \<open>The verifier and the schema version\<close>


















section \<open>The order of the writes\<close>

lemma split_on_nonempty [simp]: "split_on c s \<noteq> []"
  by (induction s) (auto split: list.splits)

lemma split_on_append_sep:
  "split_on c (d @ c # n) = split_on c d @ split_on c n"
proof (induction d)
  case Nil
  then show ?case by simp
next
  case (Cons x d)
  then show ?case by (cases "split_on c d") (auto split: list.splits)
qed

lemma split_on_no_sep: "c \<notin> set n \<Longrightarrow> split_on c n = [n]"
  by (induction n) auto

lemma join_split_on: "join [c] (split_on c d) = d"
proof (induction d)
  case Nil
  then show ?case by simp
next
  case (Cons x d)
  show ?case
  proof (cases "x = c")
    case True
    then show ?thesis using Cons by (cases "split_on c d") auto
  next
    case False
    obtain p ps where ps: "split_on c d = p # ps" by (cases "split_on c d") auto
    then show ?thesis using Cons False by (cases ps) auto
  qed
qed

lemma dirname_path_join:
  "CHR ''/'' \<notin> set name \<Longrightarrow> dirname (path_join dir name) = dir"
  by (simp add: dirname_def path_join_def split_on_append_sep split_on_no_sep join_split_on Let_def)

lemma basename_path_join:
  "CHR ''/'' \<notin> set name \<Longrightarrow> basename (path_join dir name) = name"
  by (simp add: basename_def path_join_def split_on_append_sep split_on_no_sep)

lemma tempPathOf_path_join:
  "CHR ''/'' \<notin> set name \<Longrightarrow> tempPathOf (path_join dir name) = dir @ ''/.'' @ name @ ''.tmp''"
  by (simp add: tempPathOf_def dirname_path_join basename_path_join) (simp add: path_join_def)

lemma symbolsText_lines:
  "symbolsText ser syms = concat (map (\<lambda>s. ser s @ [CHR 0x0A]) syms)"
proof -
  have "\<And>x. join [CHR 0x0A] (map ser (x # syms)) @ [CHR 0x0A]
           = concat (map (\<lambda>s. ser s @ [CHR 0x0A]) (x # syms))"
    by (induction syms) auto
  then show ?thesis by (cases syms) (auto simp: symbolsText_def Let_def)
qed


lemma performs_seq:
  assumes f: "performs ok c1 f" and g: "performs ok c2 g"
  shows "performs ok (c1 @ c2) (\<lambda>d. and_then (f d) g)"
  unfolding performs_def
proof (intro allI conjI impI)
  fix d
  from f have fd: "\<exists>k\<le>length c1. dk_trace (diskOf (f d)) = dk_trace d @ take k c1"
    "list_all ok c1 \<longrightarrow> (\<exists>d'. f d = Inr d')"
    "\<forall>d'. f d = Inr d' \<longrightarrow> dk_trace d' = dk_trace d @ c1"
    unfolding performs_def by blast+
  show "\<exists>k\<le>length (c1 @ c2). dk_trace (diskOf (and_then (f d) g)) = dk_trace d @ take k (c1 @ c2)"
  proof (cases "f d")
    case (Inl e)
    then have "and_then (f d) g = f d" by (simp add: and_then_def)
    moreover from fd(1) obtain k where "k \<le> length c1"
      "dk_trace (diskOf (f d)) = dk_trace d @ take k c1" by blast
    ultimately show ?thesis by (intro exI[of _ k]) simp
  next
    case (Inr d1)
    then have t1: "dk_trace d1 = dk_trace d @ c1" using fd(3) by blast
    from g obtain k where k: "k \<le> length c2"
      "dk_trace (diskOf (g d1)) = dk_trace d1 @ take k c2"
      unfolding performs_def by blast
    have "and_then (f d) g = g d1" using Inr by (simp add: and_then_def)
    then show ?thesis using k t1 by (intro exI[of _ "length c1 + k"]) simp
  qed
next
  fix d
  assume ok: "list_all ok (c1 @ c2)"
  from f ok obtain d1 where d1: "f d = Inr d1" unfolding performs_def by auto
  from g ok obtain d2 where "g d1 = Inr d2" unfolding performs_def by auto
  then show "\<exists>d'. and_then (f d) g = Inr d'" using d1 by (simp add: and_then_def)
next
  fix d d'
  assume r: "and_then (f d) g = Inr d'"
  then obtain d1 where d1: "f d = Inr d1" "g d1 = Inr d'"
    by (cases "f d") (auto simp: and_then_def)
  from f d1(1) have "dk_trace d1 = dk_trace d @ c1" unfolding performs_def by blast
  moreover from g d1(2) have "dk_trace d' = dk_trace d1 @ c2" unfolding performs_def by blast
  ultimately show "dk_trace d' = dk_trace d @ c1 @ c2" by simp
qed

lemma performs_write_rename:
  "performs ok [WriteFile tmp content, Rename tmp final]
     (\<lambda>d. and_then (writeFileSync ok tmp content d) (renameSync ok tmp final))"
  unfolding performs_def
proof (intro allI conjI impI)
  fix d
  show "\<exists>k\<le>length [WriteFile tmp content, Rename tmp final].
          dk_trace (diskOf (and_then (writeFileSync ok tmp content d) (renameSync ok tmp final)))
            = dk_trace d @ take k [WriteFile tmp content, Rename tmp final]"
  proof (cases "ok (WriteFile tmp content)")
    case False
    then show ?thesis
      by (intro exI[of _ 0]) (simp add: writeFileSync_def and_then_def diskOf_def)
  next
    case True
    show ?thesis
    proof (cases "ok (Rename tmp final)")
      case False
      then show ?thesis using True
        by (intro exI[of _ 1]) (simp add: writeFileSync_def renameSync_def and_then_def diskOf_def)
    next
      case r: True
      then show ?thesis using True
        by (intro exI[of _ 2]) (simp add: writeFileSync_def renameSync_def and_then_def diskOf_def)
    qed
  qed
next
  fix d
  assume "list_all ok [WriteFile tmp content, Rename tmp final]"
  then show "\<exists>d'. and_then (writeFileSync ok tmp content d) (renameSync ok tmp final) = Inr d'"
    by (simp add: writeFileSync_def renameSync_def and_then_def)
next
  fix d d'
  assume "and_then (writeFileSync ok tmp content d) (renameSync ok tmp final) = Inr d'"
  then show "dk_trace d' = dk_trace d @ [WriteFile tmp content, Rename tmp final]"
    by (auto simp: writeFileSync_def renameSync_def and_then_def split: if_splits)
qed

lemma performs_writeJsonAtomic:
  "CHR ''/'' \<notin> set name \<Longrightarrow>
   performs ok (atomicWrite dir name content) (writeJsonAtomic ok (path_join dir name) content)"
  using performs_write_rename[of ok "dir @ ''/.'' @ name @ ''.tmp''" content "path_join dir name"]
  unfolding writeJsonAtomic_def Let_def atomicWrite_def
  by (simp add: tempPathOf_path_join) (simp add: path_join_def)

lemma performs_writeSymbolsAtomic:
  "CHR ''/'' \<notin> set name \<Longrightarrow>
   performs ok (atomicWrite dir name (concat (map (\<lambda>s. ser s @ [CHR 0x0A]) syms)))
     (writeSymbolsAtomic ok ser (path_join dir name) syms)"
  using performs_write_rename[of ok "dir @ ''/.'' @ name @ ''.tmp''"
          "concat (map (\<lambda>s. ser s @ [CHR 0x0A]) syms)" "path_join dir name"]
  unfolding writeSymbolsAtomic_def Let_def atomicWrite_def symbolsText_lines
  by (simp add: tempPathOf_path_join) (simp add: path_join_def)

lemma performs_writeIndexFiles:
  "performs ok (specWrites ser dir meta repoMap testMap fileHashes syms)
     (writeIndexFilesOnDisk ok ser dir meta repoMap testMap fileHashes syms)"
proof -
  have n: "CHR ''/'' \<notin> set ''file_hashes.json''" "CHR ''/'' \<notin> set ''symbols.jsonl''"
    "CHR ''/'' \<notin> set ''repo_map.json''" "CHR ''/'' \<notin> set ''test_map.json''"
    "CHR ''/'' \<notin> set ''meta.json''" by simp_all
  note a = performs_writeJsonAtomic[OF n(1), of ok dir "ser_file_hashes ser fileHashes"]
  note b = performs_writeSymbolsAtomic[OF n(2), of ok dir "ser_symbol ser" syms]
  note c = performs_writeJsonAtomic[OF n(3), of ok dir "ser_repo_map ser repoMap"]
  note d = performs_writeJsonAtomic[OF n(4), of ok dir "ser_test_map ser testMap"]
  note e = performs_writeJsonAtomic[OF n(5), of ok dir "ser_meta ser meta"]
  note all = performs_seq[OF performs_seq[OF performs_seq[OF performs_seq[OF a b] c] d] e]
  have eq: "writeIndexFilesOnDisk ok ser dir meta repoMap testMap fileHashes syms =
     (\<lambda>d. and_then (and_then (and_then (and_then
            (writeJsonAtomic ok (path_join dir ''file_hashes.json'') (ser_file_hashes ser fileHashes) d)
            (writeSymbolsAtomic ok (ser_symbol ser) (path_join dir ''symbols.jsonl'') syms))
            (writeJsonAtomic ok (path_join dir ''repo_map.json'') (ser_repo_map ser repoMap)))
            (writeJsonAtomic ok (path_join dir ''test_map.json'') (ser_test_map ser testMap)))
            (writeJsonAtomic ok (path_join dir ''meta.json'') (ser_meta ser meta)))"
    by (rule ext) (simp add: writeIndexFilesOnDisk_def)
  show ?thesis unfolding eq specWrites_def using all by (simp only: append_assoc)
qed


lemma ends_with_newline:
  "endsWith (concat (map (\<lambda>s. ser s @ [CHR 0x0A]) syms)) [CHR 0x0A] \<longleftrightarrow> syms \<noteq> []"
proof (cases syms rule: rev_cases)
  case Nil
  then show ?thesis by (simp add: endsWith_def)
next
  case (snoc ys y)
  then show ?thesis by (simp add: endsWith_def suffix_def)
qed

lemma split_on_lines:
  "list_all (\<lambda>s. CHR 0x0A \<notin> set (ser s)) syms \<Longrightarrow>
   split_on CHR 0x0A (concat (map (\<lambda>s. ser s @ [CHR 0x0A]) syms)) = map ser syms @ [[]]"
proof (induction syms)
  case Nil
  then show ?case by simp
next
  case (Cons x syms)
  have "split_on CHR 0x0A (ser x @ CHR 0x0A # concat (map (\<lambda>s. ser s @ [CHR 0x0A]) syms))
        = split_on CHR 0x0A (ser x) @ split_on CHR 0x0A (concat (map (\<lambda>s. ser s @ [CHR 0x0A]) syms))"
    by (rule split_on_append_sep)
  then show ?case using Cons by (simp add: split_on_no_sep)
qed

text \<open>
  C2. From any disk and whatever calls fail: the calls \<open>writeIndexFiles\<close> makes are an
  initial part of the ten calls listed (file hashes, symbols, repo map, test map and meta
  last; each artifact written to \<open>{dir}/.{name}.tmp\<close> and then renamed to
  \<open>{dir}/{name}\<close>), all ten when it returns, and it returns when the ten calls are
  allowed. The text of the symbol stream is every symbol's JSON followed by a line feed:
  it ends in a line feed exactly when there is a symbol, and its lines are the symbols'
  JSON texts.
\<close>

theorem writeIndexFiles_order:
  fixes ser :: "'rm Serializers" and dir :: string and meta :: IndexMeta and repoMap :: 'rm
    and testMap :: TestMap and fileHashes :: FileHashes and syms :: "Symbol list"
    and ok :: "fs_op \<Rightarrow> bool" and d :: Disk
  defines "calls \<equiv>
     [WriteFile (dir @ ''/.file_hashes.json.tmp'') (ser_file_hashes ser fileHashes),
      Rename (dir @ ''/.file_hashes.json.tmp'') (dir @ ''/file_hashes.json''),
      WriteFile (dir @ ''/.symbols.jsonl.tmp'') (symbolsText (ser_symbol ser) syms),
      Rename (dir @ ''/.symbols.jsonl.tmp'') (dir @ ''/symbols.jsonl''),
      WriteFile (dir @ ''/.repo_map.json.tmp'') (ser_repo_map ser repoMap),
      Rename (dir @ ''/.repo_map.json.tmp'') (dir @ ''/repo_map.json''),
      WriteFile (dir @ ''/.test_map.json.tmp'') (ser_test_map ser testMap),
      Rename (dir @ ''/.test_map.json.tmp'') (dir @ ''/test_map.json''),
      WriteFile (dir @ ''/.meta.json.tmp'') (ser_meta ser meta),
      Rename (dir @ ''/.meta.json.tmp'') (dir @ ''/meta.json'')]"
  defines "r \<equiv> writeIndexFilesOnDisk ok ser dir meta repoMap testMap fileHashes syms d"
  shows "(\<exists>k\<le>length calls. dk_trace (diskOf r) = dk_trace d @ take k calls) \<and>
         (list_all ok calls \<longrightarrow> (\<exists>d'. r = Inr d' \<and> dk_trace d' = dk_trace d @ calls)) \<and>
         (\<forall>d'. r = Inr d' \<longrightarrow> dk_trace d' = dk_trace d @ calls) \<and>
         symbolsText (ser_symbol ser) syms = concat (map (\<lambda>s. ser_symbol ser s @ [CHR 0x0A]) syms) \<and>
         (endsWith (symbolsText (ser_symbol ser) syms) [CHR 0x0A] \<longleftrightarrow> syms \<noteq> []) \<and>
         (list_all (\<lambda>s. CHR 0x0A \<notin> set (ser_symbol ser s)) syms \<longrightarrow>
            split_on CHR 0x0A (symbolsText (ser_symbol ser) syms) = map (ser_symbol ser) syms @ [[]])"
proof -
  have c: "calls = specWrites ser dir meta repoMap testMap fileHashes syms"
    by (simp add: calls_def specWrites_def atomicWrite_def symbolsText_lines)
  note p = performs_writeIndexFiles[of ok ser dir meta repoMap testMap fileHashes syms,
      unfolded performs_def, rule_format, of d, folded c r_def]
  from p have p1: "\<exists>k\<le>length calls. dk_trace (diskOf r) = dk_trace d @ take k calls"
    and p2: "list_all ok calls \<Longrightarrow> \<exists>d'. r = Inr d'"
    and p3: "\<And>d'. r = Inr d' \<Longrightarrow> dk_trace d' = dk_trace d @ calls"
    by blast+
  have q2: "list_all ok calls \<longrightarrow> (\<exists>d'. r = Inr d' \<and> dk_trace d' = dk_trace d @ calls)"
    using p2 p3 by blast
  show ?thesis
    using p1 q2 p3 symbolsText_lines ends_with_newline split_on_lines
    by (simp add: symbolsText_lines ends_with_newline split_on_lines)
qed


theorem writeIndexFiles_order_witness:
  "dk_trace (diskOf (writeIndexFilesOnDisk (\<lambda>op. True) name_serializers ''/repo/.ark/index''
       (readme_meta ''1.0.0'') ()
       \<lparr>tm_schema_version = ''1.0.0'', tests = [], coverage_edges = []\<rparr> ledger_prev two_symbols
       empty_disk))
     = [WriteFile ''/repo/.ark/index/.file_hashes.json.tmp'' ''{file_hashes}'',
        Rename ''/repo/.ark/index/.file_hashes.json.tmp'' ''/repo/.ark/index/file_hashes.json'',
        WriteFile ''/repo/.ark/index/.symbols.jsonl.tmp''
          (''{src/a.ts::f}'' @ [CHR 0x0A] @ ''{src/a.ts::C}'' @ [CHR 0x0A]),
        Rename ''/repo/.ark/index/.symbols.jsonl.tmp'' ''/repo/.ark/index/symbols.jsonl'',
        WriteFile ''/repo/.ark/index/.repo_map.json.tmp'' ''{repo_map}'',
        Rename ''/repo/.ark/index/.repo_map.json.tmp'' ''/repo/.ark/index/repo_map.json'',
        WriteFile ''/repo/.ark/index/.test_map.json.tmp'' ''{test_map}'',
        Rename ''/repo/.ark/index/.test_map.json.tmp'' ''/repo/.ark/index/test_map.json'',
        WriteFile ''/repo/.ark/index/.meta.json.tmp'' ''{meta}'',
        Rename ''/repo/.ark/index/.meta.json.tmp'' ''/repo/.ark/index/meta.json'']"
proof -
  let ?r = "writeIndexFilesOnDisk (\<lambda>op. True) name_serializers ''/repo/.ark/index''
       (readme_meta ''1.0.0'') ()
       \<lparr>tm_schema_version = ''1.0.0'', tests = [], coverage_edges = []\<rparr> ledger_prev two_symbols
       empty_disk"
  note t = writeIndexFiles_order [where ok = "\<lambda>op. True" and ser = name_serializers
      and dir = "''/repo/.ark/index''" and meta = "readme_meta ''1.0.0''" and repoMap = "()"
      and testMap = "\<lparr>tm_schema_version = ''1.0.0'', tests = [], coverage_edges = []\<rparr>"
      and fileHashes = ledger_prev and syms = two_symbols and d = empty_disk]
  have allowed: "\<And>cs. list_all (\<lambda>op. True) cs" by (simp add: list_all_iff)
  from t [THEN conjunct2, THEN conjunct1] allowed
  obtain d' where d': "?r = Inr d'" and tr: "dk_trace d' = dk_trace empty_disk @
     [WriteFile (''/repo/.ark/index'' @ ''/.file_hashes.json.tmp'') (ser_file_hashes name_serializers ledger_prev),
      Rename (''/repo/.ark/index'' @ ''/.file_hashes.json.tmp'') (''/repo/.ark/index'' @ ''/file_hashes.json''),
      WriteFile (''/repo/.ark/index'' @ ''/.symbols.jsonl.tmp'') (symbolsText (ser_symbol name_serializers) two_symbols),
      Rename (''/repo/.ark/index'' @ ''/.symbols.jsonl.tmp'') (''/repo/.ark/index'' @ ''/symbols.jsonl''),
      WriteFile (''/repo/.ark/index'' @ ''/.repo_map.json.tmp'') (ser_repo_map name_serializers ()),
      Rename (''/repo/.ark/index'' @ ''/.repo_map.json.tmp'') (''/repo/.ark/index'' @ ''/repo_map.json''),
      WriteFile (''/repo/.ark/index'' @ ''/.test_map.json.tmp'')
        (ser_test_map name_serializers \<lparr>tm_schema_version = ''1.0.0'', tests = [], coverage_edges = []\<rparr>),
      Rename (''/repo/.ark/index'' @ ''/.test_map.json.tmp'') (''/repo/.ark/index'' @ ''/test_map.json''),
      WriteFile (''/repo/.ark/index'' @ ''/.meta.json.tmp'') (ser_meta name_serializers (readme_meta ''1.0.0'')),
      Rename (''/repo/.ark/index'' @ ''/.meta.json.tmp'') (''/repo/.ark/index'' @ ''/meta.json'')]"
    by blast
  have st: "symbolsText (ser_symbol name_serializers) two_symbols
              = ''{src/a.ts::f}'' @ [CHR 0x0A] @ ''{src/a.ts::C}'' @ [CHR 0x0A]"
    by code_simp
  have "diskOf ?r = d'" using d' by (simp add: diskOf_def)
  then show ?thesis
    using tr st by (simp add: empty_disk_def name_serializers_def)
qed


section \<open>Selection of subdirectories\<close>

text \<open>The sorts permute their input.\<close>

lemma insert_by_length: "length (insert_by cmp x xs) = Suc (length xs)"
  by (induction xs) auto

lemma insert_by_set: "set (insert_by cmp x xs) = insert x (set xs)"
  by (induction xs) auto

lemma sort_by_length: "length (sort_by cmp xs) = length xs"
  unfolding sort_by_def by (induction xs) (auto simp: insert_by_length)

lemma sort_by_set: "set (sort_by cmp xs) = set xs"
  unfolding sort_by_def by (induction xs) (auto simp: insert_by_set)

lemma insert_by_count: "count_list (insert_by cmp x xs) y = count_list (x # xs) y"
  by (induction xs) auto

lemma sort_by_count: "count_list (sort_by cmp xs) y = count_list xs y"
  unfolding sort_by_def by (induction xs) (auto simp: insert_by_count)

lemma selectLoop_step:
  fixes c :: Candidate
  defines "p \<equiv> sd_path (c_subdir c)"
  shows "selectLoop counts result (c # rest) = selectLoop counts result rest \<or>
         (\<exists>subdir.
            sd_path subdir = p \<and>
            ((\<exists>s \<in> set result. startsWith (sd_path s) (p @ ''/'')) \<longrightarrow> 3 \<le> directCountOf counts p) \<and>
            (c_hasImportantChildren c \<and> 20 < codeFileCount (c_subdir c) \<longrightarrow>
               10 \<le> directCountOf counts p) \<and>
            (selectLoop counts result (c # rest) = result @ [subdir] \<or>
             length result < 9 \<and>
             selectLoop counts result (c # rest) = selectLoop counts (result @ [subdir]) rest))"
proof -
  define subdir where
    "subdir = (if c_hasImportantChildren c \<and> codeFileCount (c_subdir c) > LARGE_DIR_THRESHOLD
               then (c_subdir c)\<lparr>codeFileCount := directCountOf counts p\<rparr>
               else c_subdir c)"
  have path: "sd_path subdir = p"
    by (simp add: subdir_def p_def)
  have "selectLoop counts result (c # rest) = selectLoop counts result rest \<or>
        ((\<exists>s \<in> set result. startsWith (sd_path s) (p @ ''/'')) \<longrightarrow> 3 \<le> directCountOf counts p) \<and>
        (c_hasImportantChildren c \<and> 20 < codeFileCount (c_subdir c) \<longrightarrow>
           10 \<le> directCountOf counts p) \<and>
        (selectLoop counts result (c # rest) = result @ [subdir] \<or>
         length result < 9 \<and>
         selectLoop counts result (c # rest) = selectLoop counts (result @ [subdir]) rest)"
    unfolding subdir_def p_def
    by (auto simp: Let_def list_ex_iff MIN_CODE_FILES_FOR_SUBDIR_def MAX_SUBDIRS_PER_MODULE_def
          LARGE_DIR_THRESHOLD_def)
  with path show ?thesis by blast
qed

lemma selectLoop_length:
  "length result < 10 \<Longrightarrow> length (selectLoop counts result cs) \<le> 10"
proof (induction cs arbitrary: result)
  case Nil
  then show ?case by simp
next
  case (Cons c cs)
  from selectLoop_step [of counts result c cs]
  show ?case
  proof (elim disjE exE conjE)
    assume "selectLoop counts result (c # cs) = selectLoop counts result cs"
    then show ?thesis using Cons by simp
  next
    fix subdir
    assume "selectLoop counts result (c # cs) = result @ [subdir]"
    then show ?thesis using Cons.prems by simp
  next
    fix subdir
    assume "length result < 9"
      and "selectLoop counts result (c # cs) = selectLoop counts (result @ [subdir]) cs"
    then show ?thesis using Cons.IH [of "result @ [subdir]"] by simp
  qed
qed

lemma snoc_decomposition:
  assumes ok: "\<forall>pre parent post child.
                 result = pre @ parent # post \<and> child \<in> set pre \<and> Q child parent \<longrightarrow> R parent"
    and new: "(\<exists>s \<in> set result. Q s x) \<longrightarrow> R x"
  shows "\<forall>pre parent post child.
           result @ [x] = pre @ parent # post \<and> child \<in> set pre \<and> Q child parent \<longrightarrow> R parent"
proof (intro allI impI, elim conjE)
  fix pre parent post child
  assume eq: "result @ [x] = pre @ parent # post" and c: "child \<in> set pre" and q: "Q child parent"
  show "R parent"
  proof (cases post rule: rev_cases)
    case Nil
    with eq have "result = pre" "x = parent" by auto
    with new c q show ?thesis by blast
  next
    case (snoc ys y)
    with eq have "result = pre @ parent # ys" by auto
    with ok c q show ?thesis by blast
  qed
qed

lemma selectLoop_children:
  assumes "\<forall>pre parent post child.
             result = pre @ parent # post \<and> child \<in> set pre \<and>
             startsWith (sd_path child) (sd_path parent @ ''/'') \<longrightarrow>
             3 \<le> directCountOf counts (sd_path parent)"
  shows "\<forall>pre parent post child.
           selectLoop counts result cs = pre @ parent # post \<and> child \<in> set pre \<and>
           startsWith (sd_path child) (sd_path parent @ ''/'') \<longrightarrow>
           3 \<le> directCountOf counts (sd_path parent)"
  using assms
proof (induction cs arbitrary: result)
  case Nil
  then show ?case by simp
next
  case (Cons c cs)
  from selectLoop_step [of counts result c cs]
  show ?case
  proof (elim disjE exE conjE)
    assume "selectLoop counts result (c # cs) = selectLoop counts result cs"
    then show ?thesis using Cons.IH [OF Cons.prems] by simp
  next
    fix subdir
    assume p: "sd_path subdir = sd_path (c_subdir c)"
      and new: "(\<exists>s \<in> set result. startsWith (sd_path s) (sd_path (c_subdir c) @ ''/'')) \<longrightarrow>
                3 \<le> directCountOf counts (sd_path (c_subdir c))"
      and eq: "selectLoop counts result (c # cs) = result @ [subdir]"
    from new p have "(\<exists>s \<in> set result. startsWith (sd_path s) (sd_path subdir @ ''/'')) \<longrightarrow>
                3 \<le> directCountOf counts (sd_path subdir)" by simp
    from snoc_decomposition [where Q = "\<lambda>child parent. startsWith (sd_path child) (sd_path parent @ ''/'')"
        and R = "\<lambda>parent. 3 \<le> directCountOf counts (sd_path parent)", OF Cons.prems this]
    show ?thesis unfolding eq .
  next
    fix subdir
    assume p: "sd_path subdir = sd_path (c_subdir c)"
      and new: "(\<exists>s \<in> set result. startsWith (sd_path s) (sd_path (c_subdir c) @ ''/'')) \<longrightarrow>
                3 \<le> directCountOf counts (sd_path (c_subdir c))"
      and eq: "selectLoop counts result (c # cs) = selectLoop counts (result @ [subdir]) cs"
    from new p have "(\<exists>s \<in> set result. startsWith (sd_path s) (sd_path subdir @ ''/'')) \<longrightarrow>
                3 \<le> directCountOf counts (sd_path subdir)" by simp
    from snoc_decomposition [where Q = "\<lambda>child parent. startsWith (sd_path child) (sd_path parent @ ''/'')"
        and R = "\<lambda>parent. 3 \<le> directCountOf counts (sd_path parent)", OF Cons.prems this]
    show ?thesis unfolding eq by (rule Cons.IH)
  qed
qed

lemma selectLoop_origin:
  assumes "sd \<in> set (selectLoop counts result cs)"
  shows "sd \<in> set result \<or>
         (\<exists>c \<in> set cs. sd_path sd = sd_path (c_subdir c) \<and>
            (c_hasImportantChildren c \<and> 20 < codeFileCount (c_subdir c) \<longrightarrow>
               10 \<le> directCountOf counts (sd_path sd)))"
  using assms
proof (induction cs arbitrary: result)
  case Nil
  then show ?case by simp
next
  case (Cons c cs)
  from selectLoop_step [of counts result c cs]
  show ?case
  proof (elim disjE exE conjE)
    assume "selectLoop counts result (c # cs) = selectLoop counts result cs"
    with Cons.prems have "sd \<in> set (selectLoop counts result cs)" by simp
    from Cons.IH [OF this] show ?thesis by auto
  next
    fix subdir
    assume p: "sd_path subdir = sd_path (c_subdir c)"
      and big: "c_hasImportantChildren c \<and> 20 < codeFileCount (c_subdir c) \<longrightarrow>
                10 \<le> directCountOf counts (sd_path (c_subdir c))"
      and eq: "selectLoop counts result (c # cs) = result @ [subdir]"
    from Cons.prems eq have "sd \<in> set result \<or> sd = subdir" by auto
    with p big show ?thesis by auto
  next
    fix subdir
    assume p: "sd_path subdir = sd_path (c_subdir c)"
      and big: "c_hasImportantChildren c \<and> 20 < codeFileCount (c_subdir c) \<longrightarrow>
                10 \<le> directCountOf counts (sd_path (c_subdir c))"
      and eq: "selectLoop counts result (c # cs) = selectLoop counts (result @ [subdir]) cs"
    from Cons.prems eq have "sd \<in> set (selectLoop counts (result @ [subdir]) cs)" by simp
    from Cons.IH [OF this] p big show ?thesis by auto
  qed
qed

text \<open>The selection in the module \<open>pkg\<close>, and the one in the module \<open>app\<close>.\<close>

lemma pkg_selected:
  "selectSubdirs (subdirCandidates pkg_files ''pkg'' {''pkg''} 3) =
     [\<lparr>sd_name = ''bar'', sd_path = ''pkg/foo/bar'', fileCount = 5, codeFileCount = 5,
       sd_key_files = [], sd_description = None\<rparr>,
      \<lparr>sd_name = ''foo'', sd_path = ''pkg/foo'', fileCount = 10, codeFileCount = 10,
       sd_key_files = [], sd_description = None\<rparr>]"
  by code_simp

lemma pkg_direct:
  "directCountOf (directFileCounts (subdirCandidates pkg_files ''pkg'' {''pkg''} 3)) ''pkg/foo'' = 5"
  by code_simp

lemma pkg_direct_files:
  "length (filter (\<lambda>f. dirname (path f) = ''pkg/foo'' \<and> isCodeFile (path f)) pkg_files) = 5"
  by code_simp

lemma pkg_returned:
  "map subdir_view (detectSubdirectories localeCompare pkg_files ''pkg'' {''pkg''} 3) =
     [(''pkg/foo'', 10), (''pkg/foo/bar'', 5)]"
  by code_simp

lemma app_selected:
  "selectSubdirs (subdirCandidates app_files ''app'' {''app''} 3) =
     [\<lparr>sd_name = ''ui'', sd_path = ''app/components/ui'', fileCount = 6, codeFileCount = 6,
       sd_key_files = [], sd_description = None\<rparr>,
      \<lparr>sd_name = ''components'', sd_path = ''app/components'', fileCount = 21, codeFileCount = 15,
       sd_key_files = [], sd_description = Some ''React/UI components''\<rparr>]"
  by code_simp

lemma app_candidates:
  "subdirCandidates app_files ''app'' {''app''} 3 =
     [\<lparr>c_subdir = \<lparr>sd_name = ''ui'', sd_path = ''app/components/ui'', fileCount = 6,
                   codeFileCount = 6, sd_key_files = [], sd_description = None\<rparr>,
       c_score = 66, c_hasImportantChildren = False\<rparr>,
      \<lparr>c_subdir = \<lparr>sd_name = ''components'', sd_path = ''app/components'', fileCount = 21,
                   codeFileCount = 21, sd_key_files = [],
                   sd_description = Some ''React/UI components''\<rparr>,
       c_score = 41, c_hasImportantChildren = True\<rparr>]"
  by code_simp

lemma app_below: "startsWith ''app/components/ui'' (''app/components'' @ ''/'')"
  by code_simp

text \<open>
  C8, as stated, at the module \<open>pkg\<close>: \<open>pkg/foo/bar\<close> (five code files) is selected
  first, and its parent \<open>pkg/foo\<close> is selected after it although only five code files lie
  directly in \<open>pkg/foo\<close>, which is also the direct count the function computes for it. Both
  are returned.
\<close>

theorem detectSubdirectories_counterexample:
  "map subdir_view (selectSubdirs (subdirCandidates pkg_files ''pkg'' {''pkg''} 3)) =
     [(''pkg/foo/bar'', 5), (''pkg/foo'', 10)] \<and>
   startsWith ''pkg/foo/bar'' (''pkg/foo'' @ ''/'') \<and>
   directCountOf (directFileCounts (subdirCandidates pkg_files ''pkg'' {''pkg''} 3)) ''pkg/foo'' = 5 \<and>
   length (filter (\<lambda>f. dirname (path f) = ''pkg/foo'' \<and> isCodeFile (path f)) pkg_files) = 5 \<and>
   (\<forall>localeCompare.
      map subdir_view (detectSubdirectories localeCompare pkg_files ''pkg'' {''pkg''} 3) =
        [(''pkg/foo'', 10), (''pkg/foo/bar'', 5)])"
proof (intro conjI allI)
  show "map subdir_view (selectSubdirs (subdirCandidates pkg_files ''pkg'' {''pkg''} 3)) =
     [(''pkg/foo/bar'', 5), (''pkg/foo'', 10)]"
    unfolding pkg_selected by (simp add: subdir_view_def)
  show "startsWith ''pkg/foo/bar'' (''pkg/foo'' @ ''/'')"
    by code_simp
qed (rule pkg_direct pkg_direct_files pkg_returned)+

text \<open>
  C8, amended. The returned list has at most ten entries and is the selection reordered
  (the same entries, each as often). A
  directory selected after one of its descendants has a direct code file count of at least
  \<open>3\<close>. The bound \<open>10\<close> holds for the directories with more than twenty code files and
  an important descendant of at least three code files: every selected entry stems from a
  candidate of its path, and if that candidate is of this kind, its direct count is at
  least \<open>10\<close>. The direct count is the one of \<open>directFileCounts\<close>.
\<close>

theorem detectSubdirectories_selection:
  fixes localeCompare files modulePath modulePaths depth
  defines "candidates \<equiv> subdirCandidates files modulePath modulePaths depth"
  defines "counts \<equiv> directFileCounts candidates"
  defines "selected \<equiv> selectSubdirs candidates"
  defines "returned \<equiv> detectSubdirectories localeCompare files modulePath modulePaths depth"
  shows "length returned \<le> 10 \<and>
         set returned = set selected \<and>
         (\<forall>pre parent post child.
            selected = pre @ parent # post \<and> child \<in> set pre \<and>
            startsWith (sd_path child) (sd_path parent @ ''/'') \<longrightarrow>
            3 \<le> directCountOf counts (sd_path parent)) \<and>
         (\<forall>sd \<in> set selected.
            \<exists>c \<in> set candidates.
              sd_path sd = sd_path (c_subdir c) \<and>
              (c_hasImportantChildren c \<and> 20 < codeFileCount (c_subdir c) \<longrightarrow>
                 10 \<le> directCountOf counts (sd_path sd))) \<and>
         (\<forall>sd. count_list returned sd = count_list selected sd)"
proof (intro conjI ballI)
  have "length selected \<le> 10"
    unfolding selected_def selectSubdirs_def by (rule selectLoop_length) simp
  then show "length returned \<le> 10"
    unfolding returned_def detectSubdirectories_def selected_def candidates_def
    by (simp add: sort_by_length)
  show "set returned = set selected"
    unfolding returned_def detectSubdirectories_def selected_def candidates_def
    by (simp add: sort_by_set)
  show "\<forall>pre parent post child.
            selected = pre @ parent # post \<and> child \<in> set pre \<and>
            startsWith (sd_path child) (sd_path parent @ ''/'') \<longrightarrow>
            3 \<le> directCountOf counts (sd_path parent)"
    unfolding selected_def selectSubdirs_def counts_def
    by (rule selectLoop_children) simp
next
  fix sd
  assume "sd \<in> set selected"
  then have "sd \<in> set (selectLoop counts [] candidates)"
    unfolding selected_def selectSubdirs_def counts_def .
  from selectLoop_origin [OF this]
  show "\<exists>c \<in> set candidates.
              sd_path sd = sd_path (c_subdir c) \<and>
              (c_hasImportantChildren c \<and> 20 < codeFileCount (c_subdir c) \<longrightarrow>
                 10 \<le> directCountOf counts (sd_path sd))"
    by simp
next
  show "\<forall>sd. count_list returned sd = count_list selected sd"
    unfolding returned_def detectSubdirectories_def selected_def candidates_def
    by (simp add: sort_by_count)
qed

theorem detectSubdirectories_selection_witness:
  "(\<forall>localeCompare. length (detectSubdirectories localeCompare app_files ''app'' {''app''} 3) \<le> 10) \<and>
   3 \<le> directCountOf (directFileCounts (subdirCandidates app_files ''app'' {''app''} 3))
          ''app/components'' \<and>
   10 \<le> directCountOf (directFileCounts (subdirCandidates app_files ''app'' {''app''} 3))
           ''app/components''"
proof (intro conjI allI)
  fix localeCompare :: "string \<Rightarrow> string \<Rightarrow> int"
  note t = detectSubdirectories_selection [of localeCompare app_files "''app''" "{''app''}" 3]
  let ?ui = "\<lparr>sd_name = ''ui'', sd_path = ''app/components/ui'', fileCount = 6, codeFileCount = 6,
       sd_key_files = [], sd_description = None\<rparr>"
  let ?components = "\<lparr>sd_name = ''components'', sd_path = ''app/components'', fileCount = 21,
       codeFileCount = 15, sd_key_files = [], sd_description = Some ''React/UI components''\<rparr>"
  let ?counts = "directFileCounts (subdirCandidates app_files ''app'' {''app''} 3)"
  show "length (detectSubdirectories localeCompare app_files ''app'' {''app''} 3) \<le> 10"
    using t by (rule conjunct1)
  have children: "selectSubdirs (subdirCandidates app_files ''app'' {''app''} 3) = [?ui] @ ?components # [] \<and>
      ?ui \<in> set [?ui] \<and> startsWith (sd_path ?ui) (sd_path ?components @ ''/'') \<longrightarrow>
      3 \<le> directCountOf ?counts (sd_path ?components)"
    using t [THEN conjunct2, THEN conjunct2, THEN conjunct1] by blast
  have "startsWith (sd_path ?ui) (sd_path ?components @ ''/'')"
    using app_below by simp
  with children app_selected have "3 \<le> directCountOf ?counts (sd_path ?components)"
    by simp
  then show "3 \<le> directCountOf ?counts ''app/components''"
    by simp
  have "?components \<in> set (selectSubdirs (subdirCandidates app_files ''app'' {''app''} 3))"
    unfolding app_selected by simp
  with t [THEN conjunct2, THEN conjunct2, THEN conjunct2, THEN conjunct1]
  obtain c where c: "c \<in> set (subdirCandidates app_files ''app'' {''app''} 3)"
      "sd_path ?components = sd_path (c_subdir c)"
      "c_hasImportantChildren c \<and> 20 < codeFileCount (c_subdir c) \<longrightarrow>
         10 \<le> directCountOf ?counts (sd_path ?components)"
    by blast
  from c(1) consider "sd_path (c_subdir c) = ''app/components/ui''"
    | "c_hasImportantChildren c \<and> codeFileCount (c_subdir c) = 21"
    unfolding app_candidates by fastforce
  then have "c_hasImportantChildren c \<and> 20 < codeFileCount (c_subdir c)"
  proof cases
    case 1
    with c(2) show ?thesis by simp
  next
    case 2
    then show ?thesis by simp
  qed
  with c(3) show "10 \<le> directCountOf ?counts ''app/components''"
    by simp
qed

end
